theory Spec2Isabelle
  imports Complex_Main
begin

section \<open>niphaseogram: a time-versus-phase histogram of photon events\<close>

text \<open>
  The script \<open>scripts/niphaseogram.py\<close> reads an event table, keeps the events inside an
  energy window, cuts the observation into \<open>ntoa\<close> time segments, bins the pulse phases
  of each segment into \<open>nbins\<close> bins and draws the stacked profiles and their sum.

  Conventions of this embedding.
  \<^item> A finite float is a \<open>real\<close>. The bounds of the time segments are defined with an
    explicit rounding function (\<open>segments_fl\<close>): every arithmetic result of lines 102-106
    is rounded, as a double is. The pipeline (\<open>accumulate\<close>, \<open>run\<close>) uses the instance
    of these bounds with exact arithmetic (\<open>segments\<close>), and elsewhere arithmetic on finite
    floats is exact; overflow is not modelled. The two places where numpy leaves the
    finite floats (\<open>numpy.log\<close> and \<open>numpy.sqrt\<close>) return an \<open>npfloat\<close>.
  \<^item> Every exception the script can raise on its way, and \<open>sys.exit\<close>, is a value of
    \<open>error\<close>; a step that can fail returns \<open>error + 'a\<close>.
  \<^item> The event table is the list of its rows; the columns the script reads
    (\<open>mjds\<close>, \<open>phases\<close>, \<open>en\<close>, \<open>weights\<close>) are the projections of that list, so
    they have one length, as the columns of a FITS table do. Times are the UTC MJD values
    the script gets from astropy, energies are already multiplied by \<open>PI_TO_KEV\<close>.
  \<^item> Reading the file, the time scale conversion, the optional radio profile and the
    plotting calls are not modelled; the numbers handed to the plotting calls are.
\<close>

subsection \<open>Values, errors, options and input\<close>

datatype npfloat = Finite real | NegInf | NaN

text \<open>
  \<open>SystemExit code lines\<close>: \<open>sys.exit(code)\<close> was called after the script wrote \<open>lines\<close>
  with \<open>log.error\<close>.
\<close>

datatype error =
    ZeroDivisionError
  | IndexError
  | ValueError
  | SystemExit "int option" "string list"

text \<open>
  The exit status of the process: \<open>sys.exit()\<close> without an argument exits with status 0,
  \<open>sys.exit(n)\<close> with \<open>n\<close>, an uncaught exception with status 1.
\<close>

fun exit_status :: "error \<Rightarrow> int" where
  "exit_status (SystemExit None ls) = 0"
| "exit_status (SystemExit (Some n) ls) = n"
| "exit_status ZeroDivisionError = 1"
| "exit_status IndexError = 1"
| "exit_status ValueError = 1"

text \<open>The command line options the computation reads (lines 29-38).\<close>

record options =
  ntoa :: int
  nbins :: int
  emin :: real
  emax :: real
  weights :: "string option"
  tmin :: real
  scale :: string

record event =
  ev_mjd :: real
  ev_phase :: real
  ev_en :: real
  ev_weight :: real

text \<open>
  \<open>hdr_mjdstart\<close> and \<open>hdr_mjdstop\<close> are \<open>TSTARTtime.utc.mjd\<close> and \<open>TSTOPtime.utc.mjd\<close>
  (lines 89-96), Python floats.
\<close>

record evfile =
  events :: "event list"
  hdr_mjdstart :: real
  hdr_mjdstop :: real

subsection \<open>The numpy and Python operations the script uses\<close>

text \<open>\<open>int(x)\<close> on a float truncates towards zero.\<close>

definition py_int :: "real \<Rightarrow> int" where
  "py_int x = (if 0 \<le> x then \<lfloor>x\<rfloor> else \<lceil>x\<rceil>)"

text \<open>\<open>numpy.zeros(n)\<close>: a negative length raises ValueError.\<close>

definition np_zeros :: "int \<Rightarrow> error + real list" where
  "np_zeros n = (if n < 0 then Inl ValueError else Inr (replicate (nat n) 0))"

text \<open>\<open>numpy.arange(n, dtype=float)\<close>: \<open>0, 1, ..., n-1\<close>, empty when \<open>n \<le> 0\<close>.\<close>

definition np_arange :: "int \<Rightarrow> real list" where
  "np_arange n = map real [0..<nat n]"

text \<open>
  \<open>xs[idx]\<close> with the index array of \<open>numpy.where\<close>: the elements at the listed
  positions, in order.
\<close>

definition take_idx :: "'a list \<Rightarrow> nat list \<Rightarrow> 'a list" where
  "take_idx xs idx = map (\<lambda>i. xs ! i) idx"

text \<open>
  \<open>xs[mask]\<close> with a boolean array: numpy raises IndexError when the mask's length is not
  the array's, and otherwise returns the elements at the True positions.
\<close>

definition bool_index :: "'a list \<Rightarrow> bool list \<Rightarrow> error + 'a list" where
  "bool_index xs msk =
     (if length msk \<noteq> length xs then Inl IndexError
      else Inr (map fst (filter snd (zip xs msk))))"

text \<open>
  \<open>xs[i] += v\<close> on a one-dimensional array: an index in \<open>[-n, n)\<close> is valid, a negative one
  counts from the end, any other raises IndexError.
\<close>

definition np_add_at :: "real list \<Rightarrow> int \<Rightarrow> real \<Rightarrow> error + real list" where
  "np_add_at xs i v =
     (let n = int (length xs) in
      if - n \<le> i \<and> i < n
      then (let j = nat (if i < 0 then n + i else i) in Inr (xs[j := xs ! j + v]))
      else Inl IndexError)"

text \<open>\<open>numpy.log\<close> and \<open>numpy.sqrt\<close> on one finite element.\<close>

definition np_log :: "real \<Rightarrow> npfloat" where
  "np_log x = (if x < 0 then NaN else if x = 0 then NegInf else Finite (ln x))"

definition np_sqrt :: "real \<Rightarrow> npfloat" where
  "np_sqrt x = (if x < 0 then NaN else Finite (sqrt x))"

text \<open>
  \<open>xs.reshape(n, m)\<close> of a one-dimensional array: numpy infers a negative dimension
  (written \<open>-1\<close> by convention, but any negative value is read so) from the size and
  the other dimension; two negative dimensions, a dimension that cannot be inferred and
  a shape whose size is not the array's raise ValueError. Row \<open>r\<close> holds the elements
  \<open>r*m, ..., r*m + m - 1\<close>.
\<close>

definition rows_of :: "'a list \<Rightarrow> nat \<Rightarrow> nat \<Rightarrow> 'a list list" where
  "rows_of xs k m = map (\<lambda>r. take m (drop (r * m) xs)) [0..<k]"

definition np_reshape2 :: "'a list \<Rightarrow> int \<Rightarrow> int \<Rightarrow> error + 'a list list" where
  "np_reshape2 xs n m =
     (let sz = int (length xs) in
      if n < 0 \<and> m < 0 then Inl ValueError
      else if n < 0 then
        (if m = 0 \<or> sz mod m \<noteq> 0 then Inl ValueError
         else Inr (rows_of xs (nat (sz div m)) (nat m)))
      else if m < 0 then
        (if n = 0 \<or> sz mod n \<noteq> 0 then Inl ValueError
         else Inr (rows_of xs (nat n) (nat (sz div n))))
      else if n * m \<noteq> sz then Inl ValueError
      else Inr (rows_of xs (nat n) (nat m)))"

text \<open>\<open>numpy.hstack([b1, b2])\<close> of two matrices with the same number of rows.\<close>

definition np_hstack2 :: "'a list list \<Rightarrow> 'a list list \<Rightarrow> 'a list list" where
  "np_hstack2 b1 b2 = map (\<lambda>(r1, r2). r1 @ r2) (zip b1 b2)"

subsection \<open>Energy filter (lines 82-87)\<close>

definition energy_idx :: "real \<Rightarrow> real \<Rightarrow> real list \<Rightarrow> nat list" where
  "energy_idx lo hi en = filter (\<lambda>i. en ! i \<ge> lo \<and> en ! i \<le> hi) [0..<length en]"

subsection \<open>Time segments (lines 98-106)\<close>

text \<open>
  \<open>toadur = (MJDSTOP-MJDSTART)/options.ntoa\<close> divides a Python float by an int and
  raises ZeroDivisionError for \<open>ntoa = 0\<close>. The segments are the pairs that
  \<open>zip(mjdstarts, mjdstops)\<close> yields. Every operation on doubles returns the rounded
  exact result: \<open>fl\<close> is that rounding. The integers \<open>ntoa\<close> and \<open>0, ..., ntoa - 1\<close>
  are doubles themselves.
\<close>

definition segments_fl ::
  "(real \<Rightarrow> real) \<Rightarrow> real \<Rightarrow> real \<Rightarrow> int \<Rightarrow> error + (real \<times> real) list" where
  "segments_fl fl MJDSTART MJDSTOP n =
     (if n = 0 then Inl ZeroDivisionError
      else
        (let toadur = fl (fl (MJDSTOP - MJDSTART) / real_of_int n);
             mjdstarts = map (\<lambda>k. fl (MJDSTART + fl (toadur * k))) (np_arange n);
             mjdstops = map (\<lambda>s. fl (s + toadur)) mjdstarts
         in Inr (zip mjdstarts mjdstops)))"

text \<open>The same bounds in exact arithmetic, where no result is rounded.\<close>

definition segments :: "real \<Rightarrow> real \<Rightarrow> int \<Rightarrow> error + (real \<times> real) list" where
  "segments MJDSTART MJDSTOP n = segments_fl (\<lambda>x. x) MJDSTART MJDSTOP n"

subsection \<open>Accumulation (lines 108-139)\<close>

text \<open>
  The arrays the loop updates; \<open>a_vals\<close> is the Python list \<open>a\<close>.
\<close>

record accum =
  profile :: "real list"
  fullprof :: "real list"
  err :: "real list"
  a_vals :: "real list"

text \<open>\<open>idx = (mjds>tstart)&(mjds<tstop)\<close> (line 123).\<close>

definition seg_mask :: "real list \<Rightarrow> real \<Rightarrow> real \<Rightarrow> bool list" where
  "seg_mask mjds tstart tstop = map (\<lambda>t. t > tstart \<and> t < tstop) mjds"

text \<open>\<open>bin = int(ph*options.nbins)\<close> (lines 127 and 133).\<close>

definition phase_bin :: "int \<Rightarrow> real \<Rightarrow> int" where
  "phase_bin nb ph = py_int (ph * real_of_int nb)"

text \<open>The weighted inner loop (lines 126-130).\<close>

fun add_weighted :: "int \<Rightarrow> accum \<Rightarrow> (real \<times> real) list \<Rightarrow> error + accum" where
  "add_weighted nb st [] = Inr st"
| "add_weighted nb st ((ph, ww) # rest) =
     (let bin = phase_bin nb ph in
      case np_add_at (profile st) bin ww of Inl e \<Rightarrow> Inl e | Inr p \<Rightarrow>
      case np_add_at (fullprof st) bin ww of Inl e \<Rightarrow> Inl e | Inr f \<Rightarrow>
      case np_add_at (err st) bin (ww ^ 2) of Inl e \<Rightarrow> Inl e | Inr r \<Rightarrow>
      add_weighted nb (st\<lparr>profile := p, fullprof := f, err := r\<rparr>) rest)"

text \<open>The unweighted inner loop (lines 132-135).\<close>

fun add_counts :: "int \<Rightarrow> accum \<Rightarrow> real list \<Rightarrow> error + accum" where
  "add_counts nb st [] = Inr st"
| "add_counts nb st (ph # rest) =
     (let bin = phase_bin nb ph in
      case np_add_at (profile st) bin 1 of Inl e \<Rightarrow> Inl e | Inr p \<Rightarrow>
      case np_add_at (fullprof st) bin 1 of Inl e \<Rightarrow> Inl e | Inr f \<Rightarrow>
      add_counts nb (st\<lparr>profile := p, fullprof := f\<rparr>) rest)"

text \<open>
  The body of the loop for a segment that is not skipped (lines 120-138); \<open>wts\<close> is the
  array \<open>weights\<close>, which exists when \<open>options.weights\<close> is given.
\<close>

definition process_segment ::
  "options \<Rightarrow> real list \<Rightarrow> real list \<Rightarrow> real list option \<Rightarrow> real \<times> real \<Rightarrow> accum
     \<Rightarrow> error + accum" where
  "process_segment opts mjds phases wts seg st =
     (let st0 = st\<lparr>profile := map (\<lambda>x. x * 0.0) (profile st)\<rparr>;
          idx = seg_mask mjds (fst seg) (snd seg);
          filled =
            (case wts of
               Some w \<Rightarrow>
                 (case bool_index phases idx of Inl e \<Rightarrow> Inl e | Inr phs \<Rightarrow>
                  case bool_index w idx of Inl e \<Rightarrow> Inl e | Inr ws \<Rightarrow>
                  add_weighted (nbins opts) st0 (zip phs ws))
             | None \<Rightarrow>
                 (case bool_index phases idx of Inl e \<Rightarrow> Inl e | Inr phs \<Rightarrow>
                  add_counts (nbins opts) st0 phs))
      in case filled of
           Inl e \<Rightarrow> Inl e
         | Inr st1 \<Rightarrow>
             Inr (st1\<lparr>a_vals :=
               a_vals st1 @ map (\<lambda>i. profile st1 ! i) [0..<nat (nbins opts)]\<rparr>))"

text \<open>The test of line 117 that makes the loop \<open>continue\<close>.\<close>

definition skip_segment :: "options \<Rightarrow> real \<times> real \<Rightarrow> bool" where
  "skip_segment opts seg = (tmin opts \<noteq> 0 \<and> fst seg < tmin opts)"

text \<open>The loop over the segments (lines 115-138).\<close>

fun seg_loop ::
  "options \<Rightarrow> real list \<Rightarrow> real list \<Rightarrow> real list option \<Rightarrow> (real \<times> real) list \<Rightarrow> accum
     \<Rightarrow> error + accum" where
  "seg_loop opts mjds phases wts [] st = Inr st"
| "seg_loop opts mjds phases wts (seg # segs) st =
     (if skip_segment opts seg then seg_loop opts mjds phases wts segs st
      else
        (case process_segment opts mjds phases wts seg st of
           Inl e \<Rightarrow> Inl e
         | Inr st1 \<Rightarrow> seg_loop opts mjds phases wts segs st1))"

text \<open>\<open>MJDSTART\<close> after the override of lines 98-99.\<close>

definition mjdstart :: "options \<Rightarrow> evfile \<Rightarrow> real" where
  "mjdstart opts ev = (if tmin opts \<noteq> 0 then tmin opts else hdr_mjdstart ev)"

text \<open>
  Lines 78-139: the columns, the energy filter (applied to \<open>mjds\<close> and \<open>phases\<close> only),
  the segments, the three zero arrays and the loop.
\<close>

definition filtered_mjds :: "options \<Rightarrow> evfile \<Rightarrow> real list" where
  "filtered_mjds opts ev =
     take_idx (map ev_mjd (events ev))
       (energy_idx (emin opts) (emax opts) (map ev_en (events ev)))"

definition filtered_phases :: "options \<Rightarrow> evfile \<Rightarrow> real list" where
  "filtered_phases opts ev =
     take_idx (map ev_phase (events ev))
       (energy_idx (emin opts) (emax opts) (map ev_en (events ev)))"

definition weight_column :: "options \<Rightarrow> evfile \<Rightarrow> real list option" where
  "weight_column opts ev =
     (case weights opts of None \<Rightarrow> None | Some col \<Rightarrow> Some (map ev_weight (events ev)))"

definition accumulate :: "options \<Rightarrow> evfile \<Rightarrow> error + accum" where
  "accumulate opts ev =
     (case segments (mjdstart opts ev) (hdr_mjdstop ev) (ntoa opts) of
        Inl e \<Rightarrow> Inl e
      | Inr segs \<Rightarrow>
          (case np_zeros (nbins opts) of
             Inl e \<Rightarrow> Inl e
           | Inr z \<Rightarrow>
               seg_loop opts (filtered_mjds opts ev) (filtered_phases opts ev)
                 (weight_column opts ev) segs
                 \<lparr>profile = z, fullprof = z, err = z, a_vals = []\<rparr>))"

subsection \<open>The phaseogram image (lines 140-162)\<close>

text \<open>
  The two lines written with \<open>log.error\<close> before \<open>sys.exit()\<close> (lines 151-152); the first
  character of each is a tab.
\<close>

definition scale_msg1 :: "string \<Rightarrow> string" where
  "scale_msg1 s =
     CHR 0x09 # ''Your selection for the scaling of the z-axis of the phaseogram ''
       @ [CHR 0x27] @ s @ [CHR 0x27] @ '' is not understood''"

definition scale_msg2 :: string where
  "scale_msg2 =
     CHR 0x09 # ''Please select from the following options: ''
       @ [CHR 0x27] @ ''linear'' @ [CHR 0x27] @ '' [default option], ''
       @ [CHR 0x27] @ ''log'' @ [CHR 0x27] @ '', ''
       @ [CHR 0x27] @ ''sqrt'' @ [CHR 0x27] @ '', ''
       @ [CHR 0x27] @ ''squared'' @ [CHR 0x27] @ '' ''"

definition apply_scale :: "string \<Rightarrow> real list \<Rightarrow> error + npfloat list" where
  "apply_scale s xs =
     (if s = ''linear'' then Inr (map Finite xs)
      else if s = ''log'' then Inr (map np_log xs)
      else if s = ''sqrt'' then Inr (map np_sqrt xs)
      else if s = ''squared'' then Inr (map (\<lambda>x. Finite (x * x)) xs)
      else Inl (SystemExit None [scale_msg1 s, scale_msg2]))"

text \<open>
  What \<open>imshow\<close> receives: the matrix \<open>c\<close>, the extent \<open>(0, 2.0, MJDSTART, MJDSTOP)\<close> and
  the aspect \<open>2.0/(MJDSTOP-MJDSTART)\<close>, a division of Python floats.
\<close>

record image =
  c_matrix :: "npfloat list list"
  extent :: "real \<times> real \<times> real \<times> real"
  aspect :: real

definition phaseogram :: "options \<Rightarrow> evfile \<Rightarrow> real list \<Rightarrow> error + image" where
  "phaseogram opts ev avals =
     (case apply_scale (scale opts) avals of
        Inl e \<Rightarrow> Inl e
      | Inr scaled \<Rightarrow>
          (case np_reshape2 scaled (ntoa opts) (nbins opts) of
             Inl e \<Rightarrow> Inl e
           | Inr b \<Rightarrow>
               (if hdr_mjdstop ev - mjdstart opts ev = 0 then Inl ZeroDivisionError
                else Inr \<lparr>c_matrix = np_hstack2 b b,
                          extent = (0, 2.0, mjdstart opts ev, hdr_mjdstop ev),
                          aspect = 2.0 / (hdr_mjdstop ev - mjdstart opts ev)\<rparr>)))"

subsection \<open>The folded profile panel (lines 171-180)\<close>

text \<open>
  \<open>step_y\<close> is the sequence drawn by \<open>ax2.step\<close> over the edges \<open>bbins\<close>; \<open>py\<close> and \<open>pe\<close>
  are the values and errors drawn by \<open>ax2.errorbar\<close> over the centres \<open>pbins\<close>.
  \<open>fullprof[0]\<close> raises IndexError on an empty array.
\<close>

record panel =
  bbins :: "real list"
  step_y :: "real list"
  pbins :: "real list"
  py :: "real list"
  pe :: "npfloat list"

definition folded_profile :: "options \<Rightarrow> accum \<Rightarrow> error + panel" where
  "folded_profile opts st =
     (let fp = fullprof st; n = length fp in
      if fp = [] then Inl IndexError
      else Inr \<lparr>bbins = map (\<lambda>i. real i / real n) [0..<2 * n + 1],
                step_y = fp @ fp @ [fp ! 0],
                pbins = map (\<lambda>i. real i / real n + 0.5 / real n) [0..<2 * n],
                py = fp @ fp,
                pe = (case weights opts of
                        Some col \<Rightarrow> map np_sqrt (err st @ err st)
                      | None \<Rightarrow> map np_sqrt (fp @ fp))\<rparr>)"

subsection \<open>The whole computation\<close>

record figure =
  fig_image :: image
  fig_panel :: panel

definition run :: "options \<Rightarrow> evfile \<Rightarrow> error + figure" where
  "run opts ev =
     (case accumulate opts ev of
        Inl e \<Rightarrow> Inl e
      | Inr st \<Rightarrow>
          (case phaseogram opts ev (a_vals st) of
             Inl e \<Rightarrow> Inl e
           | Inr img \<Rightarrow>
               (case folded_profile opts st of
                  Inl e \<Rightarrow> Inl e
                | Inr pan \<Rightarrow> Inr \<lparr>fig_image = img, fig_panel = pan\<rparr>)))"

subsection \<open>A small observation used to run the definitions\<close>

text \<open>
  Three events in a window of ten days; the third lies outside the default energy window
  \<open>[0.3, 12]\<close>. The options are the defaults of the script, but two segments of two bins.
\<close>

definition ex_events :: "event list" where
  "ex_events =
     [\<lparr>ev_mjd = 1, ev_phase = 0.25, ev_en = 1, ev_weight = 2\<rparr>,
      \<lparr>ev_mjd = 7, ev_phase = 0.5, ev_en = 2, ev_weight = 3\<rparr>,
      \<lparr>ev_mjd = 6, ev_phase = 0.75, ev_en = 20, ev_weight = 4\<rparr>]"

definition ex_file :: evfile where
  "ex_file = \<lparr>events = ex_events, hdr_mjdstart = 0, hdr_mjdstop = 10\<rparr>"

definition ex_opts :: options where
  "ex_opts = \<lparr>ntoa = 2, nbins = 2, emin = 0.3, emax = 12.0, weights = None, tmin = 0.0,
              scale = ''linear''\<rparr>"

subsection \<open>Notions used to state the properties\<close>


text \<open>
  The phases a segment selects, the number of phases of a list that fall into bin \<open>b\<close>,
  the histogram of a list of phases over the bins \<open>0, ..., nb - 1\<close>, and an array with
  the histogram of a list of phases added to it.
\<close>

definition selected :: "real list \<Rightarrow> real list \<Rightarrow> real \<times> real \<Rightarrow> real list" where
  "selected mjds phases seg =
     map fst (filter (\<lambda>(ph, t). fst seg < t \<and> t < snd seg) (zip phases mjds))"

definition count_in_bin :: "int \<Rightarrow> real list \<Rightarrow> nat \<Rightarrow> nat" where
  "count_in_bin nb phs b = length (filter (\<lambda>ph. phase_bin nb ph = int b) phs)"

definition histogram :: "int \<Rightarrow> real list \<Rightarrow> real list" where
  "histogram nb phs = map (\<lambda>b. real (count_in_bin nb phs b)) [0..<nat nb]"

definition add_hist :: "int \<Rightarrow> real list \<Rightarrow> real list \<Rightarrow> real list" where
  "add_hist nb xs phs = map (\<lambda>b. xs ! b + real (count_in_bin nb phs b)) [0..<nat nb]"

text \<open>
  A rounding function to run \<open>segments_fl\<close> with: rounding to the nearest multiple of
  one tenth.
\<close>

definition round_tenths :: "real \<Rightarrow> real" where
  "round_tenths x = real_of_int \<lfloor>x * 10 + 1 / 2\<rfloor> / 10"

section \<open>Properties\<close>

lemma segments_exact:
  "segments MJDSTART MJDSTOP n =
     (if n = 0 then Inl ZeroDivisionError
      else
        (let toadur = (MJDSTOP - MJDSTART) / real_of_int n;
             mjdstarts = map (\<lambda>k. MJDSTART + toadur * k) (np_arange n);
             mjdstops = map (\<lambda>s. s + toadur) mjdstarts
         in Inr (zip mjdstarts mjdstops)))"
  by (simp add: segments_def segments_fl_def)

lemmas eval_defs = run_def accumulate_def phaseogram_def folded_profile_def apply_scale_def
  segments_exact np_arange_def np_zeros_def mjdstart_def filtered_mjds_def filtered_phases_def
  weight_column_def take_idx_def energy_idx_def process_segment_def seg_mask_def bool_index_def
  np_add_at_def py_int_def phase_bin_def skip_segment_def np_reshape2_def rows_of_def
  np_hstack2_def np_sqrt_def np_log_def upt_conv_Cons Let_def

lemmas ex_defs = ex_events_def ex_file_def ex_opts_def

subsection \<open>The time segments\<close>

lemma segments_Inr:
  "n \<noteq> 0 \<Longrightarrow> segments a b n =
     Inr (map (\<lambda>k. (a + (b - a) / real_of_int n * real k,
                     a + (b - a) / real_of_int n * real k + (b - a) / real_of_int n))
            [0..<nat n])"
  by (simp add: segments_exact np_arange_def Let_def zip_map_map zip_same_conv_map comp_def)

text \<open>
  C5, the claim as stated fails: a negative segment count is not rejected. The segmenter
  returns without any error, with no segment.
\<close>

theorem segments_negative_count_not_rejected:
  "segments 0 10 (- 1) = Inr [] \<and> segments_fl round_tenths 0 10 (- 1) = Inr []"
  by (simp add: segments_exact segments_fl_def np_arange_def)

lemma segments_fl_Inr:
  "n \<noteq> 0 \<Longrightarrow> segments_fl fl a b n =
     Inr (map (\<lambda>k. (fl (a + fl (fl (fl (b - a) / real_of_int n) * real k)),
                     fl (fl (a + fl (fl (fl (b - a) / real_of_int n) * real k))
                           + fl (fl (b - a) / real_of_int n))))
            [0..<nat n])"
  by (simp add: segments_fl_def np_arange_def Let_def zip_map_map zip_same_conv_map comp_def)

text \<open>
  C5, amended. The segmenter validates nothing: a negative count gives no segment and
  no error, and a count of zero is a division by zero. For every count \<open>n \<ge> 1\<close> it
  returns \<open>n\<close> segments. With \<open>toadur\<close> the rounded quotient \<open>(stop - start) / n\<close>, segment
  \<open>k\<close> starts at the rounded \<open>start + toadur * k\<close> and stops at the rounded sum of its
  start and \<open>toadur\<close>; the first starts at \<open>start\<close> exactly. When \<open>start \<le> stop\<close> the
  starts do not decrease, none lies before \<open>start\<close>, and no segment stops before it
  starts. This holds for every rounding that is monotone, keeps zero and the start time
  and rounds a rounded number to itself, as rounding to the nearest double does; equal
  durations and segments that abut and end at \<open>stop\<close> are not among the properties
  rounding keeps.
\<close>

theorem segments_fl_count_and_order:
  assumes "\<forall>x y. x \<le> y \<longrightarrow> fl x \<le> fl y" and "\<forall>x. fl (fl x) = fl x"
    and "fl 0 = 0" and "fl a = a"
  shows "(n < 0 \<longrightarrow> segments_fl fl a b n = Inr []) \<and>
   (n = 0 \<longrightarrow> segments_fl fl a b n = Inl ZeroDivisionError) \<and>
   (1 \<le> n \<longrightarrow>
      (\<exists>segs. segments_fl fl a b n = Inr segs \<and> length segs = nat n \<and>
         fst (segs ! 0) = a \<and>
         (\<forall>k < nat n.
            fst (segs ! k) = fl (a + fl (fl (fl (b - a) / real_of_int n) * real k)) \<and>
            snd (segs ! k) = fl (fst (segs ! k) + fl (fl (b - a) / real_of_int n))) \<and>
         (a \<le> b \<longrightarrow>
            (\<forall>k. Suc k < nat n \<longrightarrow> fst (segs ! k) \<le> fst (segs ! Suc k)) \<and>
            (\<forall>k < nat n. a \<le> fst (segs ! k) \<and> fst (segs ! k) \<le> snd (segs ! k)))))"
proof (intro conjI impI)
  assume "n < 0"
  then show "segments_fl fl a b n = Inr []"
    by (simp add: segments_fl_def np_arange_def)
next
  assume "n = 0"
  then show "segments_fl fl a b n = Inl ZeroDivisionError"
    by (simp add: segments_fl_def)
next
  assume n: "1 \<le> n"
  let ?d = "fl (fl (b - a) / real_of_int n)"
  let ?s = "\<lambda>k. fl (a + fl (?d * real k))"
  let ?segs = "map (\<lambda>k. (?s k, fl (?s k + ?d))) [0..<nat n]"
  have mono: "fl x \<le> fl y" if "x \<le> y" for x y using assms(1) that by blast
  have eq: "segments_fl fl a b n = Inr ?segs"
    using n by (simp add: segments_fl_Inr)
  have len: "length ?segs = nat n" by simp
  have first: "fst (?segs ! 0) = a" using n assms(3,4) by simp
  have char: "\<forall>k < nat n. fst (?segs ! k) = ?s k \<and> snd (?segs ! k) = fl (fst (?segs ! k) + ?d)"
    by simp
  have ord: "(\<forall>k. Suc k < nat n \<longrightarrow> fst (?segs ! k) \<le> fst (?segs ! Suc k)) \<and>
             (\<forall>k < nat n. a \<le> fst (?segs ! k) \<and> fst (?segs ! k) \<le> snd (?segs ! k))"
    if ab: "a \<le> b"
  proof -
    have "fl 0 \<le> fl (b - a)" using ab by (intro mono) simp
    then have "0 \<le> fl (b - a) / real_of_int n" using n assms(3) by simp
    then have "fl 0 \<le> ?d" by (rule mono)
    then have d: "0 \<le> ?d" by (simp add: assms(3))
    have step: "?s k \<le> ?s (Suc k)" for k
    proof -
      have "?d * real k \<le> ?d * real (Suc k)"
        using d by (intro mult_left_mono) simp_all
      then have "fl (?d * real k) \<le> fl (?d * real (Suc k))" by (rule mono)
      then have "a + fl (?d * real k) \<le> a + fl (?d * real (Suc k))" by simp
      then show ?thesis by (rule mono)
    qed
    have low: "a \<le> ?s k" for k
    proof -
      have "0 \<le> ?d * real k" using d by simp
      then have "fl 0 \<le> fl (?d * real k)" by (rule mono)
      then have "a \<le> a + fl (?d * real k)" by (simp add: assms(3))
      then have "fl a \<le> ?s k" by (rule mono)
      then show ?thesis by (simp add: assms(4))
    qed
    have up: "?s k \<le> fl (?s k + ?d)" for k
    proof -
      have "?s k \<le> ?s k + ?d" using d by simp
      then have "fl (?s k) \<le> fl (?s k + ?d)" by (rule mono)
      moreover have "fl (?s k) = ?s k" using assms(2) by simp
      ultimately show ?thesis by simp
    qed
    show ?thesis using step low up by simp
  qed
  show "\<exists>segs. segments_fl fl a b n = Inr segs \<and> length segs = nat n \<and>
         fst (segs ! 0) = a \<and>
         (\<forall>k < nat n.
            fst (segs ! k) = fl (a + fl (fl (fl (b - a) / real_of_int n) * real k)) \<and>
            snd (segs ! k) = fl (fst (segs ! k) + fl (fl (b - a) / real_of_int n))) \<and>
         (a \<le> b \<longrightarrow>
            (\<forall>k. Suc k < nat n \<longrightarrow> fst (segs ! k) \<le> fst (segs ! Suc k)) \<and>
            (\<forall>k < nat n. a \<le> fst (segs ! k) \<and> fst (segs ! k) \<le> snd (segs ! k)))"
    using eq len first char ord by blast
qed

lemma round_tenths_mono: "x \<le> y \<Longrightarrow> round_tenths x \<le> round_tenths y"
  unfolding round_tenths_def by (intro divide_right_mono floor_mono of_int_le_iff [THEN iffD2]) simp_all

lemma round_tenths_idem: "round_tenths (round_tenths x) = round_tenths x"
proof -
  have "\<lfloor>real_of_int m + 1 / 2\<rfloor> = m" for m :: int
    by (rule floor_unique) simp_all
  then show ?thesis by (simp add: round_tenths_def)
qed

theorem segments_fl_count_and_order_witness:
  "segments_fl round_tenths 0 1 3 = Inr [(0, 3 / 10), (3 / 10, 6 / 10), (6 / 10, 9 / 10)]
   \<and> (\<exists>segs. segments_fl round_tenths 0 1 3 = Inr segs \<and> length segs = 3 \<and>
         fst (segs ! 0) = 0 \<and> fst (segs ! 1) \<le> fst (segs ! 2) \<and>
         fst (segs ! 2) \<le> snd (segs ! 2))"
proof -
  have h1: "\<forall>x y. x \<le> y \<longrightarrow> round_tenths x \<le> round_tenths y"
    by (simp add: round_tenths_mono)
  have h2: "\<forall>x. round_tenths (round_tenths x) = round_tenths x"
    by (simp add: round_tenths_idem)
  have h3: "round_tenths 0 = 0" by (simp add: round_tenths_def)
  note th = segments_fl_count_and_order [OF h1 h2 h3 h3, of 3 1]
  from th obtain segs where s: "segments_fl round_tenths 0 1 3 = Inr segs"
    "length segs = nat 3" "fst (segs ! 0) = 0"
    "(0::real) \<le> 1 \<longrightarrow>
        (\<forall>k. Suc k < nat 3 \<longrightarrow> fst (segs ! k) \<le> fst (segs ! Suc k)) \<and>
        (\<forall>k < nat 3. 0 \<le> fst (segs ! k) \<and> fst (segs ! k) \<le> snd (segs ! k))"
    by auto
  have o1: "fst (segs ! 1) \<le> fst (segs ! 2)" using s(4) by (simp add: numeral_2_eq_2)
  have o2: "fst (segs ! 2) \<le> snd (segs ! 2)" using s(4) by simp
  have v: "segments_fl round_tenths 0 1 3 = Inr [(0, 3 / 10), (3 / 10, 6 / 10), (6 / 10, 9 / 10)]"
    by (simp add: segments_fl_def round_tenths_def np_arange_def upt_conv_Cons Let_def)
  show ?thesis using v s(1,2,3) o1 o2 by auto
qed

subsection \<open>The scale of the image\<close>

lemma apply_scale_invalid:
  "s \<noteq> ''linear'' \<Longrightarrow> s \<noteq> ''log'' \<Longrightarrow> s \<noteq> ''sqrt'' \<Longrightarrow> s \<noteq> ''squared'' \<Longrightarrow>
   apply_scale s xs = Inl (SystemExit None [scale_msg1 s, scale_msg2])"
  by (simp add: apply_scale_def)

text \<open>
  C4: with \<open>--scale bogus\<close> the script writes its two lines and calls \<open>sys.exit()\<close>
  without an argument, so the process ends with exit status 0, the status of success.
\<close>

theorem invalid_scale_exits_with_status_zero:
  "run (ex_opts\<lparr>scale := ''bogus''\<rparr>) ex_file
     = Inl (SystemExit None [scale_msg1 ''bogus'', scale_msg2])
   \<and> exit_status (SystemExit None [scale_msg1 ''bogus'', scale_msg2]) = 0"
  by (simp add: eval_defs ex_defs)

subsection \<open>The events of a segment\<close>

lemma seg_mask_nth:
  "i < length mjds \<Longrightarrow>
   seg_mask mjds tstart tstop ! i = (tstart < mjds ! i \<and> mjds ! i < tstop)"
  by (simp add: seg_mask_def)

lemma length_seg_mask: "length (seg_mask mjds tstart tstop) = length mjds"
  by (simp add: seg_mask_def)

lemma filter_snd_zip_map:
  "map fst (filter snd (zip xs (map P ys))) = map fst (filter (\<lambda>(x, y). P y) (zip xs ys))"
proof (induction xs arbitrary: ys)
  case Nil
  show ?case by simp
next
  case (Cons x xs)
  show ?case by (cases ys) (simp_all add: Cons.IH)
qed

lemma bool_index_seg_mask:
  "length phases = length mjds \<Longrightarrow>
   bool_index phases (seg_mask mjds tstart tstop) =
     Inr (map fst (filter (\<lambda>(ph, t). tstart < t \<and> t < tstop) (zip phases mjds)))"
  by (simp add: bool_index_def seg_mask_def filter_snd_zip_map)

text \<open>
  C3, the claim as stated fails: of three events at times 5, 7 and 10, the segment from 5
  to 10 selects only the one at 7; the event at \<open>tstart\<close> is left out like the one at
  \<open>tstop\<close>.
\<close>

theorem event_at_tstart_not_selected:
  "seg_mask [5, 7, 10] 5 10 = [False, True, False] \<and>
   bool_index [0.25, 0.5, 0.75 :: real] (seg_mask [5, 7, 10] 5 10) = Inr [0.5]"
  by (simp add: seg_mask_def bool_index_def)

text \<open>
  C3, amended. For each segment the script selects exactly the events whose time lies
  in the open interval \<open>(tstart, tstop)\<close>, in their order: an event at \<open>tstart\<close> and an
  event at \<open>tstop\<close> are both excluded.
\<close>

theorem segment_selects_open_interval:
  assumes "length phases = length mjds"
  shows "bool_index phases (seg_mask mjds tstart tstop) =
           Inr (map fst (filter (\<lambda>(ph, t). tstart < t \<and> t < tstop) (zip phases mjds)))
         \<and> (\<forall>i < length mjds.
              (seg_mask mjds tstart tstop ! i \<longleftrightarrow> tstart < mjds ! i \<and> mjds ! i < tstop) \<and>
              (mjds ! i = tstart \<longrightarrow> \<not> seg_mask mjds tstart tstop ! i) \<and>
              (mjds ! i = tstop \<longrightarrow> \<not> seg_mask mjds tstart tstop ! i))"
  using assms by (simp add: bool_index_seg_mask seg_mask_nth)

theorem segment_selects_open_interval_witness:
  "bool_index [0.25, 0.5, 0.75 :: real] (seg_mask [5, 7, 10] 5 10) = Inr [0.5]
   \<and> \<not> seg_mask [5, 7, 10] 5 10 ! 0 \<and> seg_mask [5, 7, 10] 5 10 ! 1
   \<and> \<not> seg_mask [5, 7, 10] 5 10 ! 2"
proof -
  have len: "length [0.25, 0.5, 0.75 :: real] = length [5, 7, 10 :: real]" by simp
  note th = segment_selects_open_interval [OF len, of 5 10]
  have sel: "bool_index [0.25, 0.5, 0.75 :: real] (seg_mask [5, 7, 10] 5 10) = Inr [0.5]"
    using th by simp
  have m0: "\<not> seg_mask [5, 7, 10] 5 10 ! 0"
    using th by simp
  have m1: "seg_mask [5, 7, 10] 5 10 ! 1"
    using conjunct2 [OF th, rule_format, of 1] by simp
  have m2: "\<not> seg_mask [5, 7, 10] 5 10 ! 2"
    using conjunct2 [OF th, rule_format, of 2] by simp
  show ?thesis using sel m0 m1 m2 by simp
qed

subsection \<open>The image matrix\<close>

lemma length_rows_of: "length (rows_of xs k m) = k"
  by (simp add: rows_of_def)

lemma rows_of_row_length:
  "r < k \<Longrightarrow> k * m \<le> length xs \<Longrightarrow> length (rows_of xs k m ! r) = m"
proof -
  assume r: "r < k" and le: "k * m \<le> length xs"
  have "Suc r * m \<le> k * m" using r by (intro mult_le_mono1) simp
  then have "r * m + m \<le> length xs" using le by simp
  then show ?thesis using r by (simp add: rows_of_def)
qed

lemma np_hstack2_same: "np_hstack2 b b = map (\<lambda>r. r @ r) b"
  by (simp add: np_hstack2_def zip_same_conv_map)

lemma length_apply_scale: "apply_scale s xs = Inr ys \<Longrightarrow> length ys = length xs"
  by (auto simp: apply_scale_def split: if_splits)

lemma np_reshape2_shape:
  assumes "np_reshape2 xs n m = Inr b" and "length xs = k * nat m" and "1 \<le> m"
  shows "length b = k \<and> (\<forall>r < k. length (b ! r) = nat m)"
proof -
  have sz: "int (length xs) = int k * m" using assms(2,3) by simp
  have b: "b = rows_of xs k (nat m)"
  proof (cases "n < 0")
    case True
    then show ?thesis using assms(1,3) sz
      by (simp add: np_reshape2_def Let_def split: if_splits)
  next
    case False
    then have "n * m = int k * m" and "0 \<le> n" and "b = rows_of xs (nat n) (nat m)"
      using assms(1,3) sz by (auto simp: np_reshape2_def Let_def split: if_splits)
    then show ?thesis using assms(3) by simp
  qed
  show ?thesis using assms(2) by (simp add: b length_rows_of rows_of_row_length)
qed

lemma phaseogram_Inr_cases:
  assumes "phaseogram opts ev avals = Inr img"
  obtains scaled b where "apply_scale (scale opts) avals = Inr scaled"
    and "np_reshape2 scaled (ntoa opts) (nbins opts) = Inr b"
    and "hdr_mjdstop ev - mjdstart opts ev \<noteq> 0"
    and "img = \<lparr>c_matrix = np_hstack2 b b,
                extent = (0, 2.0, mjdstart opts ev, hdr_mjdstop ev),
                aspect = 2.0 / (hdr_mjdstop ev - mjdstart opts ev)\<rparr>"
  using assms by (auto simp: phaseogram_def split: sum.splits if_splits)

lemma apply_scale_valid:
  "s = ''linear'' \<or> s = ''log'' \<or> s = ''sqrt'' \<or> s = ''squared'' \<Longrightarrow>
   \<exists>ys. apply_scale s xs = Inr ys \<and> length ys = length xs"
  by (auto simp: apply_scale_def)

lemma np_reshape2_ok:
  "0 \<le> n \<Longrightarrow> 0 \<le> m \<Longrightarrow> length xs = nat n * nat m \<Longrightarrow>
   np_reshape2 xs n m = Inr (rows_of xs (nat n) (nat m))"
  by (simp add: np_reshape2_def Let_def nat_mult_distrib [symmetric])

text \<open>
  C6. Let the flat array hold \<open>np\<close> profiles of \<open>B = nbins \<ge> 1\<close> values. Whenever the
  assembly returns an image, its matrix has \<open>np\<close> rows of \<open>2B\<close> entries, and in every row
  the entry at column \<open>j < B\<close> is the entry at column \<open>B + j\<close>. The assembly does return
  an image when the scale is one of the four, \<open>ntoa\<close> is the number of profiles and the
  window is not empty.
\<close>

theorem phaseogram_shape_and_duplication:
  assumes "length avals = np * nat (nbins opts)" and "1 \<le> nbins opts"
  shows "(\<forall>img. phaseogram opts ev avals = Inr img \<longrightarrow>
            length (c_matrix img) = np \<and>
            (\<forall>r < np. length (c_matrix img ! r) = 2 * nat (nbins opts) \<and>
               (\<forall>j < nat (nbins opts).
                  c_matrix img ! r ! j = c_matrix img ! r ! (nat (nbins opts) + j))))
         \<and> ((scale opts = ''linear'' \<or> scale opts = ''log'' \<or> scale opts = ''sqrt''
              \<or> scale opts = ''squared'') \<and> ntoa opts = int np
             \<and> hdr_mjdstop ev \<noteq> mjdstart opts ev
             \<longrightarrow> (\<exists>img. phaseogram opts ev avals = Inr img))"
proof (intro conjI allI impI)
  fix img
  assume ok: "phaseogram opts ev avals = Inr img"
  then obtain scaled b where sc: "apply_scale (scale opts) avals = Inr scaled"
    and rs: "np_reshape2 scaled (ntoa opts) (nbins opts) = Inr b"
    and img: "c_matrix img = np_hstack2 b b"
    by (elim phaseogram_Inr_cases) simp
  have len: "length scaled = np * nat (nbins opts)"
    using sc assms(1) by (simp add: length_apply_scale)
  have shape: "length b = np \<and> (\<forall>r < np. length (b ! r) = nat (nbins opts))"
    using np_reshape2_shape [OF rs len assms(2)] .
  show "length (c_matrix img) = np"
    using shape by (simp add: img np_hstack2_same)
  fix r assume r: "r < np"
  have row: "c_matrix img ! r = b ! r @ b ! r"
    using shape r by (simp add: img np_hstack2_same)
  show "length (c_matrix img ! r) = 2 * nat (nbins opts)"
    using shape r by (simp add: row)
  fix j assume "j < nat (nbins opts)"
  then show "c_matrix img ! r ! j = c_matrix img ! r ! (nat (nbins opts) + j)"
    using shape r by (simp add: row nth_append)
next
  assume h: "(scale opts = ''linear'' \<or> scale opts = ''log'' \<or> scale opts = ''sqrt''
              \<or> scale opts = ''squared'') \<and> ntoa opts = int np
             \<and> hdr_mjdstop ev \<noteq> mjdstart opts ev"
  then obtain scaled where sc: "apply_scale (scale opts) avals = Inr scaled"
    and len: "length scaled = length avals"
    using apply_scale_valid [of "scale opts" avals] by blast
  have "np_reshape2 scaled (ntoa opts) (nbins opts)
          = Inr (rows_of scaled (nat (ntoa opts)) (nat (nbins opts)))"
    using h assms len by (intro np_reshape2_ok) simp_all
  then show "\<exists>img. phaseogram opts ev avals = Inr img"
    using sc h by (simp add: phaseogram_def)
qed

theorem phaseogram_shape_and_duplication_witness:
  "\<exists>img. phaseogram ex_opts ex_file [1, 0, 0, 1] = Inr img \<and>
      length (c_matrix img) = 2 \<and> length (c_matrix img ! 1) = 4 \<and>
      c_matrix img ! 1 ! 1 = c_matrix img ! 1 ! 3 \<and> c_matrix img ! 1 ! 1 = Finite 1"
proof -
  have len: "length [1, 0, 0, 1 :: real] = 2 * nat (nbins ex_opts)"
    by (simp add: ex_defs)
  have nb: "1 \<le> nbins ex_opts" by (simp add: ex_defs)
  note th = phaseogram_shape_and_duplication [OF len nb, of ex_file]
  have "\<exists>img. phaseogram ex_opts ex_file [1, 0, 0, 1] = Inr img"
    using conjunct2 [OF th] by (simp add: ex_defs mjdstart_def)
  then obtain img where ok: "phaseogram ex_opts ex_file [1, 0, 0, 1] = Inr img" ..
  note sh = conjunct1 [OF th, rule_format, OF ok]
  have l: "length (c_matrix img) = 2" using sh by simp
  have r: "length (c_matrix img ! 1) = 4"
    using conjunct2 [OF sh, rule_format, of 1] by (simp add: ex_defs)
  have d: "c_matrix img ! 1 ! 1 = c_matrix img ! 1 ! 3"
    using conjunct2 [OF sh, rule_format, of 1, THEN conjunct2, rule_format, of 1]
    by (simp add: ex_defs)
  have v: "c_matrix img ! 1 ! 1 = Finite 1"
    using ok by (auto simp: eval_defs ex_defs)
  show ?thesis using ok l r d v by blast
qed

subsection \<open>The energy filter and the weights\<close>

lemma length_take_idx: "length (take_idx xs idx) = length idx"
  by (simp add: take_idx_def)

lemma length_filtered_mjds:
  "length (filtered_mjds opts ev)
     = length (energy_idx (emin opts) (emax opts) (map ev_en (events ev)))"
  by (simp add: filtered_mjds_def length_take_idx)

lemma length_filtered_phases:
  "length (filtered_phases opts ev) = length (filtered_mjds opts ev)"
  by (simp add: filtered_phases_def filtered_mjds_def length_take_idx)

lemma energy_idx_removes:
  assumes "e \<in> set (events ev)" and "\<not> (emin opts \<le> ev_en e \<and> ev_en e \<le> emax opts)"
  shows "length (filtered_mjds opts ev) < length (events ev)"
proof -
  obtain i where i: "i < length (events ev)" and e: "events ev ! i = e"
    using assms(1) by (auto simp: in_set_conv_nth)
  let ?P = "\<lambda>i. emin opts \<le> map ev_en (events ev) ! i \<and> map ev_en (events ev) ! i \<le> emax opts"
  have "i \<in> set [0..<length (map ev_en (events ev))]" using i by simp
  moreover have "\<not> ?P i" using i e assms(2) by simp
  ultimately have "length (filter ?P [0..<length (map ev_en (events ev))])
                     < length [0..<length (map ev_en (events ev))]"
    by (rule length_filter_less)
  then show ?thesis
    by (simp add: length_filtered_mjds energy_idx_def)
qed

lemma energy_idx_keeps_all:
  assumes "\<forall>e \<in> set (events ev). emin opts \<le> ev_en e \<and> ev_en e \<le> emax opts"
  shows "energy_idx (emin opts) (emax opts) (map ev_en (events ev)) = [0..<length (events ev)]"
proof -
  have "\<forall>i \<in> set [0..<length (map ev_en (events ev))].
          emin opts \<le> map ev_en (events ev) ! i \<and> map ev_en (events ev) ! i \<le> emax opts"
    using assms by simp
  then show ?thesis
    unfolding energy_idx_def by (simp only: filter_True length_map)
qed

lemma first_segment:
  assumes "1 \<le> n"
  shows "\<exists>tstop rest. segments a b n = Inr ((a, tstop) # rest)"
proof -
  have "[0..<nat n] = 0 # [Suc 0..<nat n]"
    using assms by (simp add: upt_conv_Cons)
  then show ?thesis using assms by (simp add: segments_Inr)
qed

lemma first_segment_not_skipped: "\<not> skip_segment opts (mjdstart opts ev, tstop)"
  by (simp add: skip_segment_def mjdstart_def)

text \<open>
  When the energy filter keeps every event the two arrays have one length, and the mask
  of a segment picks each selected event's own weight.
\<close>

lemma weights_aligned_when_nothing_filtered:
  assumes "\<forall>e \<in> set (events ev). emin opts \<le> ev_en e \<and> ev_en e \<le> emax opts"
  shows "filtered_mjds opts ev = map ev_mjd (events ev)
     \<and> bool_index (map ev_weight (events ev)) (seg_mask (filtered_mjds opts ev) tstart tstop)
         = Inr (map ev_weight (filter (\<lambda>e. tstart < ev_mjd e \<and> ev_mjd e < tstop) (events ev)))"
proof -
  have idx: "energy_idx (emin opts) (emax opts) (map ev_en (events ev)) = [0..<length (events ev)]"
    using assms by (rule energy_idx_keeps_all)
  have m: "filtered_mjds opts ev = map ev_mjd (events ev)"
    using map_nth [of "map ev_mjd (events ev)"]
    by (simp add: filtered_mjds_def take_idx_def idx)
  have "map fst (filter (\<lambda>(w, t). tstart < t \<and> t < tstop) (zip (map ev_weight es) (map ev_mjd es)))
          = map ev_weight (filter (\<lambda>e. tstart < ev_mjd e \<and> ev_mjd e < tstop) es)" for es
    by (induction es) simp_all
  then show ?thesis
    by (simp add: m bool_index_seg_mask)
qed

text \<open>
  C2. In weighted mode the weight array is the whole column of the table, while the mask
  of a segment has the length of the energy-filtered times. As soon as the filter
  removes one event the two lengths differ, so the indexing \<open>weights[idx]\<close> of the first
  segment is ill-defined: numpy raises IndexError and the run ends there, before any
  weight is accumulated (for \<open>ntoa \<ge> 1\<close> and \<open>nbins \<ge> 0\<close>, where the loop is reached).
\<close>

theorem weighted_mask_misapplied_to_unfiltered_weights:
  assumes "weights opts = Some col"
    and "e \<in> set (events ev)" and "\<not> (emin opts \<le> ev_en e \<and> ev_en e \<le> emax opts)"
    and "1 \<le> ntoa opts" and "0 \<le> nbins opts"
  shows "weight_column opts ev = Some (map ev_weight (events ev))
         \<and> length (seg_mask (filtered_mjds opts ev) tstart tstop) < length (events ev)
         \<and> bool_index (map ev_weight (events ev))
              (seg_mask (filtered_mjds opts ev) tstart tstop) = Inl IndexError
         \<and> accumulate opts ev = Inl IndexError
         \<and> run opts ev = Inl IndexError"
proof -
  have wc: "weight_column opts ev = Some (map ev_weight (events ev))"
    using assms(1) by (simp add: weight_column_def)
  have less: "length (filtered_mjds opts ev) < length (events ev)"
    using assms(2,3) by (rule energy_idx_removes)
  have bad: "bool_index (map ev_weight (events ev)) (seg_mask (filtered_mjds opts ev) t1 t2)
               = Inl IndexError" for t1 t2
    using less by (simp add: bool_index_def length_seg_mask)
  have good: "\<exists>phs. bool_index (filtered_phases opts ev)
                 (seg_mask (filtered_mjds opts ev) t1 t2) = Inr phs" for t1 t2
    by (simp add: bool_index_def length_seg_mask length_filtered_phases)
  have ps: "process_segment opts (filtered_mjds opts ev) (filtered_phases opts ev)
              (Some (map ev_weight (events ev))) seg st = Inl IndexError" for seg st
    using good [of "fst seg" "snd seg"] bad [of "fst seg" "snd seg"]
    by (auto simp: process_segment_def Let_def)
  obtain tstop rest where segs:
    "segments (mjdstart opts ev) (hdr_mjdstop ev) (ntoa opts)
       = Inr ((mjdstart opts ev, tstop) # rest)"
    using first_segment [OF assms(4)] by blast
  have acc: "accumulate opts ev = Inl IndexError"
    using assms(5) by (simp add: accumulate_def segs np_zeros_def wc first_segment_not_skipped ps)
  show ?thesis
    using wc less bad acc by (simp add: run_def length_seg_mask)
qed

theorem weighted_mask_misapplied_to_unfiltered_weights_witness:
  "weight_column (ex_opts\<lparr>weights := Some ''WEIGHT''\<rparr>) ex_file = Some [2, 3, 4]
   \<and> length (seg_mask (filtered_mjds (ex_opts\<lparr>weights := Some ''WEIGHT''\<rparr>) ex_file) 0 5) = 2
   \<and> accumulate (ex_opts\<lparr>weights := Some ''WEIGHT''\<rparr>) ex_file = Inl IndexError
   \<and> run (ex_opts\<lparr>weights := Some ''WEIGHT''\<rparr>) ex_file = Inl IndexError"
proof -
  let ?o = "ex_opts\<lparr>weights := Some ''WEIGHT''\<rparr>"
  let ?e = "\<lparr>ev_mjd = 6, ev_phase = 0.75, ev_en = 20, ev_weight = 4\<rparr>"
  have a1: "weights ?o = Some ''WEIGHT''" by simp
  have a2: "?e \<in> set (events ex_file)" by (simp add: ex_defs)
  have a3: "\<not> (emin ?o \<le> ev_en ?e \<and> ev_en ?e \<le> emax ?o)" by (simp add: ex_defs)
  have a4: "1 \<le> ntoa ?o" by (simp add: ex_defs)
  have a5: "0 \<le> nbins ?o" by (simp add: ex_defs)
  note th = weighted_mask_misapplied_to_unfiltered_weights [OF a1 a2 a3 a4 a5, of 0 5]
  have l: "length (seg_mask (filtered_mjds ?o ex_file) 0 5) = 2"
    by (simp add: eval_defs ex_defs)
  show ?thesis using th l by (simp add: ex_defs)
qed

subsection \<open>What the accumulation loop preserves\<close>

lemma np_add_at_Inr:
  assumes "np_add_at xs i v = Inr ys"
  obtains j where "j < length xs" and "ys = xs[j := xs ! j + v]"
proof -
  let ?n = "int (length xs)"
  let ?j = "nat (if i < 0 then ?n + i else i)"
  from assms have rng: "- ?n \<le> i \<and> i < ?n" and ys: "ys = xs[?j := xs ! ?j + v]"
    by (auto simp: np_add_at_def Let_def split: if_splits)
  from rng have "?j < length xs" by auto
  with ys show thesis by (rule that [rotated])
qed

lemma np_add_at_length: "np_add_at xs i v = Inr ys \<Longrightarrow> length ys = length xs"
  by (erule np_add_at_Inr) simp

lemma np_add_at_nonneg:
  assumes "np_add_at xs i v = Inr ys" and "0 \<le> v" and "\<forall>x \<in> set xs. 0 \<le> x"
  shows "\<forall>y \<in> set ys. 0 \<le> y"
proof -
  from assms(1) obtain j where j: "j < length xs" and ys: "ys = xs[j := xs ! j + v]"
    by (rule np_add_at_Inr)
  have "0 \<le> xs ! j + v" using assms(2,3) j by (simp add: add_nonneg_nonneg)
  moreover have "set ys \<subseteq> insert (xs ! j + v) (set xs)"
    unfolding ys by (rule set_update_subset_insert)
  ultimately show ?thesis using assms(3) by auto
qed

lemma add_weighted_preserves:
  "add_weighted nb st xs = Inr st' \<Longrightarrow>
   a_vals st' = a_vals st \<and> length (profile st') = length (profile st)
   \<and> length (fullprof st') = length (fullprof st) \<and> length (err st') = length (err st)
   \<and> ((\<forall>x \<in> set (err st). 0 \<le> x) \<longrightarrow> (\<forall>x \<in> set (err st'). 0 \<le> x))"
proof (induction xs arbitrary: st)
  case Nil
  then show ?case by simp
next
  case (Cons x xs)
  obtain ph ww where x: "x = (ph, ww)" by (cases x)
  from Cons.prems obtain p f r where
    p: "np_add_at (profile st) (phase_bin nb ph) ww = Inr p" and
    f: "np_add_at (fullprof st) (phase_bin nb ph) ww = Inr f" and
    r: "np_add_at (err st) (phase_bin nb ph) (ww ^ 2) = Inr r" and
    rest: "add_weighted nb (st\<lparr>profile := p, fullprof := f, err := r\<rparr>) xs = Inr st'"
    by (auto simp: x Let_def split: sum.splits)
  have nn: "(\<forall>x \<in> set (err st). 0 \<le> x) \<longrightarrow> (\<forall>x \<in> set r. 0 \<le> x)"
    using np_add_at_nonneg [OF r] by simp
  show ?case
    using Cons.IH [OF rest] np_add_at_length [OF p] np_add_at_length [OF f]
      np_add_at_length [OF r] nn by simp
qed

lemma add_counts_preserves:
  "add_counts nb st phs = Inr st' \<Longrightarrow>
   a_vals st' = a_vals st \<and> length (profile st') = length (profile st)
   \<and> length (fullprof st') = length (fullprof st) \<and> err st' = err st
   \<and> ((\<forall>x \<in> set (fullprof st). 0 \<le> x) \<longrightarrow> (\<forall>x \<in> set (fullprof st'). 0 \<le> x))"
proof (induction phs arbitrary: st)
  case Nil
  then show ?case by simp
next
  case (Cons ph phs)
  from Cons.prems obtain p f where
    p: "np_add_at (profile st) (phase_bin nb ph) 1 = Inr p" and
    f: "np_add_at (fullprof st) (phase_bin nb ph) 1 = Inr f" and
    rest: "add_counts nb (st\<lparr>profile := p, fullprof := f\<rparr>) phs = Inr st'"
    by (auto simp: Let_def split: sum.splits)
  have nn: "(\<forall>x \<in> set (fullprof st). 0 \<le> x) \<longrightarrow> (\<forall>x \<in> set f. 0 \<le> x)"
    using np_add_at_nonneg [OF f] by simp
  show ?case
    using Cons.IH [OF rest] np_add_at_length [OF p] np_add_at_length [OF f] nn by simp
qed

lemma process_segment_preserves:
  assumes "process_segment opts mjds phases wts seg st = Inr st'"
  shows "length (a_vals st') = length (a_vals st) + nat (nbins opts)
         \<and> length (profile st') = length (profile st)
         \<and> length (fullprof st') = length (fullprof st) \<and> length (err st') = length (err st)
         \<and> ((\<forall>x \<in> set (err st). 0 \<le> x) \<longrightarrow> (\<forall>x \<in> set (err st'). 0 \<le> x))
         \<and> (wts = None \<longrightarrow> (\<forall>x \<in> set (fullprof st). 0 \<le> x)
               \<longrightarrow> (\<forall>x \<in> set (fullprof st'). 0 \<le> x))"
proof (cases wts)
  case None
  let ?st0 = "st\<lparr>profile := map (\<lambda>x. x * 0.0) (profile st)\<rparr>"
  from assms None obtain phs st1 where
    ac: "add_counts (nbins opts) ?st0 phs = Inr st1" and
    st': "st' = st1\<lparr>a_vals := a_vals st1 @ map (\<lambda>i. profile st1 ! i) [0..<nat (nbins opts)]\<rparr>"
    by (auto simp: process_segment_def Let_def split: sum.splits)
  show ?thesis using add_counts_preserves [OF ac] None by (simp add: st')
next
  case (Some w)
  let ?st0 = "st\<lparr>profile := map (\<lambda>x. x * 0.0) (profile st)\<rparr>"
  from assms Some obtain xs st1 where
    aw: "add_weighted (nbins opts) ?st0 xs = Inr st1" and
    st': "st' = st1\<lparr>a_vals := a_vals st1 @ map (\<lambda>i. profile st1 ! i) [0..<nat (nbins opts)]\<rparr>"
    by (auto simp: process_segment_def Let_def split: sum.splits)
  show ?thesis using add_weighted_preserves [OF aw] Some by (simp add: st')
qed



lemma seg_loop_a_vals_length:
  "seg_loop opts mjds phases wts segs st = Inr st' \<Longrightarrow>
   length (a_vals st') = length (a_vals st)
       + length (filter (\<lambda>seg. \<not> skip_segment opts seg) segs) * nat (nbins opts)"
proof (induction segs arbitrary: st)
  case Nil
  then show ?case by simp
next
  case (Cons seg segs)
  show ?case
  proof (cases "skip_segment opts seg")
    case True
    with Cons.prems have "seg_loop opts mjds phases wts segs st = Inr st'" by simp
    from Cons.IH [OF this] True show ?thesis by simp
  next
    case False
    with Cons.prems obtain st1 where
      ps: "process_segment opts mjds phases wts seg st = Inr st1" and
      rest: "seg_loop opts mjds phases wts segs st1 = Inr st'"
      by (cases "process_segment opts mjds phases wts seg st") simp_all
    have "length (a_vals st1) = length (a_vals st) + nat (nbins opts)"
      using process_segment_preserves [OF ps] by blast
    with Cons.IH [OF rest] False show ?thesis by simp
  qed
qed

lemma seg_loop_skips:
  "seg_loop opts mjds phases wts segs st
     = seg_loop opts mjds phases wts (filter (\<lambda>seg. \<not> skip_segment opts seg) segs) st"
proof (induction segs arbitrary: st)
  case Nil
  show ?case by simp
next
  case (Cons seg segs)
  show ?case
  proof (cases "skip_segment opts seg")
    case True
    then show ?thesis by (simp add: Cons.IH)
  next
    case False
    show ?thesis
    proof (cases "process_segment opts mjds phases wts seg st")
      case (Inl e)
      with False show ?thesis by simp
    next
      case (Inr st1)
      with False show ?thesis by (simp add: Cons.IH [of st1])
    qed
  qed
qed

lemma accumulate_Inr_cases:
  assumes "accumulate opts ev = Inr st"
  obtains segs where "segments (mjdstart opts ev) (hdr_mjdstop ev) (ntoa opts) = Inr segs"
    and "0 \<le> nbins opts" and "ntoa opts \<noteq> 0"
    and "seg_loop opts (filtered_mjds opts ev) (filtered_phases opts ev)
           (weight_column opts ev) segs
           \<lparr>profile = replicate (nat (nbins opts)) 0, fullprof = replicate (nat (nbins opts)) 0,
            err = replicate (nat (nbins opts)) 0, a_vals = []\<rparr> = Inr st"
proof -
  from assms obtain segs z where
    s: "segments (mjdstart opts ev) (hdr_mjdstop ev) (ntoa opts) = Inr segs" and
    z: "np_zeros (nbins opts) = Inr z" and
    l: "seg_loop opts (filtered_mjds opts ev) (filtered_phases opts ev)
           (weight_column opts ev) segs \<lparr>profile = z, fullprof = z, err = z, a_vals = []\<rparr> = Inr st"
    by (auto simp: accumulate_def split: sum.splits)
  from z have nb: "0 \<le> nbins opts" and zz: "z = replicate (nat (nbins opts)) 0"
    by (auto simp: np_zeros_def split: if_splits)
  from s have n0: "ntoa opts \<noteq> 0" by (auto simp: segments_exact split: if_splits)
  from l have l': "seg_loop opts (filtered_mjds opts ev) (filtered_phases opts ev)
           (weight_column opts ev) segs
           \<lparr>profile = replicate (nat (nbins opts)) 0, fullprof = replicate (nat (nbins opts)) 0,
            err = replicate (nat (nbins opts)) 0, a_vals = []\<rparr> = Inr st"
    unfolding zz .
  show thesis by (rule that [OF s nb n0 l'])
qed

lemma length_segments: "segments a b n = Inr segs \<Longrightarrow> length segs = nat n"
  by (auto simp: segments_exact np_arange_def Let_def split: if_splits)



lemma accumulate_a_vals_length:
  assumes "accumulate opts ev = Inr st"
    and "segments (mjdstart opts ev) (hdr_mjdstop ev) (ntoa opts) = Inr segs"
  shows "length (a_vals st)
           = length (filter (\<lambda>seg. \<not> skip_segment opts seg) segs) * nat (nbins opts)"
proof -
  from assms(1) obtain segs' where
    s: "segments (mjdstart opts ev) (hdr_mjdstop ev) (ntoa opts) = Inr segs'" and
    l: "seg_loop opts (filtered_mjds opts ev) (filtered_phases opts ev)
           (weight_column opts ev) segs'
           \<lparr>profile = replicate (nat (nbins opts)) 0, fullprof = replicate (nat (nbins opts)) 0,
            err = replicate (nat (nbins opts)) 0, a_vals = []\<rparr> = Inr st"
    by (rule accumulate_Inr_cases)
  from s assms(2) have "segs' = segs" by simp
  with seg_loop_a_vals_length [OF l] show ?thesis by simp
qed

subsection \<open>The override of the start time and the skipped segments\<close>

lemma run_Inr_cases:
  assumes "run opts ev = Inr fig"
  obtains st where "accumulate opts ev = Inr st"
    and "phaseogram opts ev (a_vals st) = Inr (fig_image fig)"
    and "folded_profile opts st = Inr (fig_panel fig)"
  using assms by (auto simp: run_def split: sum.splits)

lemma np_reshape2_rows:
  assumes "np_reshape2 xs n m = Inr b" and "1 \<le> n" and "0 \<le> m"
  shows "length b = nat n \<and> int (length xs) = n * m"
  using assms by (auto simp: np_reshape2_def Let_def length_rows_of split: if_splits)

lemma np_reshape2_wrong_size:
  assumes "1 \<le> n" and "0 \<le> m" and "int (length xs) \<noteq> n * m"
  shows "np_reshape2 xs n m = Inl ValueError"
  using assms by (auto simp: np_reshape2_def Let_def)

lemma run_rows:
  assumes "run opts ev = Inr fig" and "1 \<le> ntoa opts"
  shows "length (c_matrix (fig_image fig)) = nat (ntoa opts)"
proof -
  from assms(1) obtain st where acc: "accumulate opts ev = Inr st"
    and img: "phaseogram opts ev (a_vals st) = Inr (fig_image fig)"
    by (rule run_Inr_cases)
  from acc have nb: "0 \<le> nbins opts" by (rule accumulate_Inr_cases)
  from img obtain scaled b where
    rs: "np_reshape2 scaled (ntoa opts) (nbins opts) = Inr b" and
    c: "fig_image fig = \<lparr>c_matrix = np_hstack2 b b,
                extent = (0, 2.0, mjdstart opts ev, hdr_mjdstop ev),
                aspect = 2.0 / (hdr_mjdstop ev - mjdstart opts ev)\<rparr>"
    by (rule phaseogram_Inr_cases)
  have "length b = nat (ntoa opts)"
    using np_reshape2_rows [OF rs assms(2) nb] by simp
  then show ?thesis by (simp add: c np_hstack2_same)
qed

lemma run_extent:
  assumes "run opts ev = Inr fig"
  shows "extent (fig_image fig) = (0, 2.0, mjdstart opts ev, hdr_mjdstop ev)"
proof -
  from assms obtain st where acc: "accumulate opts ev = Inr st"
    and img: "phaseogram opts ev (a_vals st) = Inr (fig_image fig)"
    by (rule run_Inr_cases)
  from img obtain scaled b where
    rs: "np_reshape2 scaled (ntoa opts) (nbins opts) = Inr b" and
    c: "fig_image fig = \<lparr>c_matrix = np_hstack2 b b,
                extent = (0, 2.0, mjdstart opts ev, hdr_mjdstop ev),
                aspect = 2.0 / (hdr_mjdstop ev - mjdstart opts ev)\<rparr>"
    by (rule phaseogram_Inr_cases)
  show ?thesis by (simp add: c)
qed

text \<open>
  C1, the claim as stated fails. With a window from 0 to 10, two segments and
  \<open>--tmin 5\<close> (which exceeds the start 0 of the first segment of the window), the run
  returns a matrix that still has two rows, and the time range handed to the plot is
  from 5 to 10, not the window from 0 to 10.
\<close>

theorem tmin_keeps_rows_and_moves_extent:
  "(case run (ex_opts\<lparr>tmin := 5\<rparr>) ex_file of
      Inl e \<Rightarrow> False
    | Inr fig \<Rightarrow> length (c_matrix (fig_image fig)) = 2
                 \<and> extent (fig_image fig) = (0, 2, 5, 10))
   \<and> hdr_mjdstart ex_file = 0 \<and> ntoa (ex_opts\<lparr>tmin := 5\<rparr>) = 2"
  by (simp add: eval_defs ex_defs)

text \<open>
  C1, amended. A given (non-zero) \<open>--tmin\<close> replaces the start of the window: the time
  range recorded for the axis is \<open>[tmin, stop]\<close>, not the original \<open>[start, stop]\<close>. A
  segment whose start is below \<open>tmin\<close> is skipped entirely, it changes neither the
  profiles appended for the image nor \<open>fullprof\<close>. The matrix of a run that returns a
  figure never has fewer rows: it has \<open>ntoa\<close> rows (for \<open>ntoa \<ge> 1\<close>).
\<close>

theorem tmin_override_amended:
  "(tmin opts \<noteq> 0 \<and> fst seg < tmin opts \<longrightarrow>
      seg_loop opts mjds phases wts (seg # segs) st = seg_loop opts mjds phases wts segs st)
   \<and> seg_loop opts mjds phases wts segs st
       = seg_loop opts mjds phases wts (filter (\<lambda>seg. \<not> skip_segment opts seg) segs) st
   \<and> (\<forall>fig. run opts ev = Inr fig \<and> tmin opts \<noteq> 0 \<longrightarrow>
         extent (fig_image fig) = (0, 2, tmin opts, hdr_mjdstop ev))
   \<and> (\<forall>fig. run opts ev = Inr fig \<and> 1 \<le> ntoa opts \<longrightarrow>
         length (c_matrix (fig_image fig)) = nat (ntoa opts))"
proof (intro conjI allI impI)
  assume "tmin opts \<noteq> 0 \<and> fst seg < tmin opts"
  then show "seg_loop opts mjds phases wts (seg # segs) st = seg_loop opts mjds phases wts segs st"
    by (simp add: skip_segment_def)
next
  show "seg_loop opts mjds phases wts segs st
       = seg_loop opts mjds phases wts (filter (\<lambda>seg. \<not> skip_segment opts seg) segs) st"
    by (rule seg_loop_skips)
next
  fix fig assume "run opts ev = Inr fig \<and> tmin opts \<noteq> 0"
  then show "extent (fig_image fig) = (0, 2, tmin opts, hdr_mjdstop ev)"
    using run_extent [of opts ev fig] by (simp add: mjdstart_def)
next
  fix fig assume "run opts ev = Inr fig \<and> 1 \<le> ntoa opts"
  then show "length (c_matrix (fig_image fig)) = nat (ntoa opts)"
    using run_rows [of opts ev fig] by simp
qed

theorem tmin_override_amended_witness:
  "seg_loop (ex_opts\<lparr>tmin := 5\<rparr>) [1, 6] [0.25, 0.75] None [(0, 5), (5, 10)]
       \<lparr>profile = [0, 0], fullprof = [0, 0], err = [0, 0], a_vals = []\<rparr>
     = seg_loop (ex_opts\<lparr>tmin := 5\<rparr>) [1, 6] [0.25, 0.75] None [(5, 10)]
       \<lparr>profile = [0, 0], fullprof = [0, 0], err = [0, 0], a_vals = []\<rparr>
   \<and> seg_loop (ex_opts\<lparr>tmin := 5\<rparr>) [1, 6] [0.25, 0.75] None [(5, 10)]
       \<lparr>profile = [0, 0], fullprof = [0, 0], err = [0, 0], a_vals = []\<rparr>
     = Inr \<lparr>profile = [0, 1], fullprof = [0, 1], err = [0, 0], a_vals = [0, 1]\<rparr>
   \<and> (\<exists>fig. run (ex_opts\<lparr>tmin := 5\<rparr>) ex_file = Inr fig
         \<and> extent (fig_image fig) = (0, 2, 5, 10)
         \<and> length (c_matrix (fig_image fig)) = 2)"
proof -
  let ?o = "ex_opts\<lparr>tmin := 5\<rparr>"
  let ?z = "\<lparr>profile = [0, 0], fullprof = [0, 0], err = [0, 0], a_vals = []\<rparr> :: accum"
  note th = tmin_override_amended [of ?o "(0, 5)" "[1, 6]" "[0.25, 0.75]" None "[(5, 10)]" ?z ex_file]
  have skip: "seg_loop ?o [1, 6] [0.25, 0.75] None [(0, 5), (5, 10)] ?z
                = seg_loop ?o [1, 6] [0.25, 0.75] None [(5, 10)] ?z"
    using conjunct1 [OF th] by (simp add: ex_defs)
  have val: "seg_loop ?o [1, 6] [0.25, 0.75] None [(5, 10)] ?z
               = Inr \<lparr>profile = [0, 1], fullprof = [0, 1], err = [0, 0], a_vals = [0, 1]\<rparr>"
    by (simp add: eval_defs ex_defs)
  obtain fig where ok: "run ?o ex_file = Inr fig"
    by (simp add: eval_defs ex_defs)
  have e: "extent (fig_image fig) = (0, 2, 5, 10)"
    using th ok by (simp add: ex_defs)
  have r: "length (c_matrix (fig_image fig)) = 2"
    using th ok by (simp add: ex_defs)
  show ?thesis using skip val ok e r by blast
qed

lemma segments_starts_not_below:
  assumes "segments a b n = Inr segs" and "a \<le> b" and "seg \<in> set segs"
  shows "a \<le> fst seg"
proof -
  from assms(1) have n0: "n \<noteq> 0" by (auto simp: segments_exact split: if_splits)
  show ?thesis
  proof (cases "n < 0")
    case True
    with assms(1,3) show ?thesis by (simp add: segments_exact np_arange_def)
  next
    case False
    with n0 have n: "0 < n" by simp
    let ?f = "\<lambda>k. (a + (b - a) / real_of_int n * real k,
                    a + (b - a) / real_of_int n * real k + (b - a) / real_of_int n)"
    from segments_Inr [OF n0, of a b] assms(1) have "segs = map ?f [0..<nat n]" by simp
    with assms(3) have "seg \<in> ?f ` set [0..<nat n]" by (simp only: set_map)
    then obtain k where "seg = ?f k" by (rule imageE)
    then have "fst seg = a + (b - a) / real_of_int n * real k" by (simp only: fst_conv)
    moreover have "0 \<le> (b - a) / real_of_int n * real k"
      using assms(2) n by simp
    ultimately show ?thesis by simp
  qed
qed

lemma no_segment_skipped:
  assumes "segments (mjdstart opts ev) (hdr_mjdstop ev) (ntoa opts) = Inr segs"
    and "tmin opts = 0 \<or> tmin opts \<le> hdr_mjdstop ev"
  shows "filter (\<lambda>seg. \<not> skip_segment opts seg) segs = segs"
proof (cases "tmin opts = 0")
  case True
  then show ?thesis by (simp add: skip_segment_def)
next
  case False
  with assms(2) have le: "mjdstart opts ev \<le> hdr_mjdstop ev" and m: "mjdstart opts ev = tmin opts"
    by (simp_all add: mjdstart_def)
  have "\<forall>seg \<in> set segs. \<not> skip_segment opts seg"
  proof
    fix seg assume "seg \<in> set segs"
    with assms(1) le have "mjdstart opts ev \<le> fst seg" by (rule segments_starts_not_below)
    then show "\<not> skip_segment opts seg" by (simp add: skip_segment_def m)
  qed
  then show ?thesis by simp
qed

lemma segments_nth:
  assumes "segments a b n = Inr segs" and "k < nat n"
  shows "fst (segs ! k) = a + (b - a) / real_of_int n * real k"
proof -
  from assms(2) have n0: "n \<noteq> 0" by auto
  from segments_Inr [OF n0, of a b] assms(1)
  have "segs = map (\<lambda>k. (a + (b - a) / real_of_int n * real k,
                     a + (b - a) / real_of_int n * real k + (b - a) / real_of_int n))
                [0..<nat n]"
    by simp
  then show ?thesis using assms(2) by simp
qed

lemma first_segment_kept:
  assumes "segments (mjdstart opts ev) (hdr_mjdstop ev) (ntoa opts) = Inr segs"
    and "1 \<le> ntoa opts"
  shows "\<not> skip_segment opts (segs ! 0)"
proof -
  have "fst (segs ! 0) = mjdstart opts ev"
    using segments_nth [OF assms(1), of 0] assms(2) by simp
  then show ?thesis by (simp add: skip_segment_def mjdstart_def)
qed

lemma later_segments_skipped:
  assumes "segments (mjdstart opts ev) (hdr_mjdstop ev) (ntoa opts) = Inr segs"
    and "tmin opts \<noteq> 0" and "hdr_mjdstop ev < tmin opts"
    and "1 \<le> k" and "k < nat (ntoa opts)"
  shows "skip_segment opts (segs ! k)"
proof -
  have m: "mjdstart opts ev = tmin opts" using assms(2) by (simp add: mjdstart_def)
  have n: "0 < real_of_int (ntoa opts)" using assms(5) by simp
  have "(hdr_mjdstop ev - tmin opts) / real_of_int (ntoa opts) < 0"
    using assms(3) n by (simp add: divide_neg_pos)
  moreover have "0 < real k" using assms(4) by simp
  ultimately have "(hdr_mjdstop ev - tmin opts) / real_of_int (ntoa opts) * real k < 0"
    by (rule mult_neg_pos)
  moreover have "fst (segs ! k)
      = tmin opts + (hdr_mjdstop ev - tmin opts) / real_of_int (ntoa opts) * real k"
    using segments_nth [OF assms(1,5)] by (simp add: m)
  ultimately show ?thesis using assms(2) by (simp add: skip_segment_def)
qed

text \<open>
  C9, the claim as stated fails. With \<open>--tmin 20\<close> beyond the stop time 10 and two
  segments, the recomputed segments are \<open>(20, 15)\<close> and \<open>(15, 10)\<close>: the start 15 of the
  second is below \<open>tmin\<close>, so the skip branch fires. The loop ends with only 2 of the
  \<open>2 * 2\<close> values appended, and the run fails in the reshape.
\<close>

theorem tmin_beyond_stop_skips_a_segment:
  "segments (mjdstart (ex_opts\<lparr>tmin := 20\<rparr>) ex_file) (hdr_mjdstop ex_file) 2
     = Inr [(20, 15), (15, 10)]
   \<and> skip_segment (ex_opts\<lparr>tmin := 20\<rparr>) (15, 10)
   \<and> accumulate (ex_opts\<lparr>tmin := 20\<rparr>) ex_file
     = Inr \<lparr>profile = [0, 0], fullprof = [0, 0], err = [0, 0], a_vals = [0, 0]\<rparr>
   \<and> run (ex_opts\<lparr>tmin := 20\<rparr>) ex_file = Inl ValueError"
  by (simp add: eval_defs ex_defs numeral_2_eq_2)

text \<open>
  C9, amended (for \<open>ntoa \<ge> 1\<close> and \<open>nbins \<ge> 1\<close>). The loop appends \<open>nbins\<close> values for
  every segment it does not skip. When the override is not active, or is active with
  \<open>tmin \<le> MJDSTOP\<close>, the starts of the recomputed segments are all at least \<open>tmin\<close>, no
  segment is skipped, exactly \<open>ntoa * nbins\<close> values have been appended and the reshape
  to \<open>(ntoa, nbins)\<close> succeeds. Whenever a segment is skipped, fewer than \<open>ntoa * nbins\<close>
  values have been appended, the reshape raises ValueError and the run returns no
  figure, rather than a matrix with fewer rows. Every run that returns a figure has
  appended exactly \<open>ntoa * nbins\<close> values. A segment is skipped exactly when the
  override is active with \<open>tmin > MJDSTOP\<close> and \<open>ntoa \<ge> 2\<close>: the first segment starts at
  \<open>tmin\<close> and is never skipped, and with \<open>tmin > MJDSTOP\<close> the duration is negative, so
  every later segment starts below \<open>tmin\<close> and is skipped (in exact arithmetic, that is up
  to floating-point effects).
\<close>

theorem skipped_segments_break_reshape:
  assumes "1 \<le> ntoa opts" and "1 \<le> nbins opts"
    and "accumulate opts ev = Inr st"
    and "segments (mjdstart opts ev) (hdr_mjdstop ev) (ntoa opts) = Inr segs"
  shows "length (a_vals st)
           = length (filter (\<lambda>seg. \<not> skip_segment opts seg) segs) * nat (nbins opts)
     \<and> (tmin opts = 0 \<or> tmin opts \<le> hdr_mjdstop ev \<longrightarrow>
           (\<forall>seg \<in> set segs. \<not> skip_segment opts seg))
     \<and> ((\<forall>seg \<in> set segs. \<not> skip_segment opts seg) \<longrightarrow>
           length (a_vals st) = nat (ntoa opts) * nat (nbins opts)
           \<and> (\<forall>scaled :: npfloat list. length scaled = length (a_vals st) \<longrightarrow>
                 (\<exists>b. np_reshape2 scaled (ntoa opts) (nbins opts) = Inr b
                      \<and> length b = nat (ntoa opts))))
     \<and> ((\<exists>seg \<in> set segs. skip_segment opts seg) \<longrightarrow>
           length (a_vals st) < nat (ntoa opts) * nat (nbins opts)
           \<and> (\<forall>scaled :: npfloat list. length scaled = length (a_vals st) \<longrightarrow>
                 np_reshape2 scaled (ntoa opts) (nbins opts) = Inl ValueError)
           \<and> (\<forall>fig. run opts ev \<noteq> Inr fig))
     \<and> (\<forall>fig. run opts ev = Inr fig \<longrightarrow>
           length (a_vals st) = nat (ntoa opts) * nat (nbins opts))
     \<and> ((\<exists>seg \<in> set segs. skip_segment opts seg) \<longleftrightarrow>
           tmin opts \<noteq> 0 \<and> hdr_mjdstop ev < tmin opts \<and> 2 \<le> ntoa opts)
     \<and> \<not> skip_segment opts (segs ! 0)
     \<and> (tmin opts \<noteq> 0 \<and> hdr_mjdstop ev < tmin opts \<longrightarrow>
           (\<forall>k. 1 \<le> k \<and> k < nat (ntoa opts) \<longrightarrow> skip_segment opts (segs ! k)))"
proof -
  let ?kept = "filter (\<lambda>seg. \<not> skip_segment opts seg) segs"
  have len: "length (a_vals st) = length ?kept * nat (nbins opts)"
    using assms(3,4) by (rule accumulate_a_vals_length)
  have nsegs: "length segs = nat (ntoa opts)"
    using assms(4) by (rule length_segments)
  have noskip: "tmin opts = 0 \<or> tmin opts \<le> hdr_mjdstop ev \<longrightarrow>
                  (\<forall>seg \<in> set segs. \<not> skip_segment opts seg)"
  proof
    assume "tmin opts = 0 \<or> tmin opts \<le> hdr_mjdstop ev"
    with assms(4) have "?kept = segs" by (rule no_segment_skipped)
    then show "\<forall>seg \<in> set segs. \<not> skip_segment opts seg"
      by (simp add: filter_id_conv)
  qed
  have full: "length (a_vals st) = nat (ntoa opts) * nat (nbins opts)
              \<and> (\<forall>scaled :: npfloat list. length scaled = length (a_vals st) \<longrightarrow>
                    (\<exists>b. np_reshape2 scaled (ntoa opts) (nbins opts) = Inr b
                         \<and> length b = nat (ntoa opts)))"
    if "\<forall>seg \<in> set segs. \<not> skip_segment opts seg"
  proof -
    from that have "?kept = segs" by simp
    with len nsegs have l: "length (a_vals st) = nat (ntoa opts) * nat (nbins opts)" by simp
    have "\<exists>b. np_reshape2 scaled (ntoa opts) (nbins opts) = Inr b \<and> length b = nat (ntoa opts)"
      if "length scaled = length (a_vals st)" for scaled :: "npfloat list"
    proof -
      have "np_reshape2 scaled (ntoa opts) (nbins opts)
              = Inr (rows_of scaled (nat (ntoa opts)) (nat (nbins opts)))"
        using that l assms(1,2) by (intro np_reshape2_ok) simp_all
      then show ?thesis by (simp add: length_rows_of)
    qed
    then show ?thesis using l by blast
  qed
  have short: "length (a_vals st) < nat (ntoa opts) * nat (nbins opts)"
    if "\<exists>seg \<in> set segs. skip_segment opts seg"
  proof -
    from that obtain seg where "seg \<in> set segs" and "\<not> \<not> skip_segment opts seg" by auto
    then have "length ?kept < length segs" by (rule length_filter_less)
    then have "length ?kept * nat (nbins opts) < length segs * nat (nbins opts)"
      using assms(2) by simp
    then show ?thesis by (simp add: len nsegs)
  qed
  have bad: "np_reshape2 scaled (ntoa opts) (nbins opts) = Inl ValueError"
    if "length (a_vals st) < nat (ntoa opts) * nat (nbins opts)"
      and "length scaled = length (a_vals st)" for scaled :: "npfloat list"
  proof -
    have "int (nat (ntoa opts) * nat (nbins opts)) = ntoa opts * nbins opts"
      using assms(1,2) by simp
    with that have "int (length scaled) \<noteq> ntoa opts * nbins opts" by linarith
    with assms(1,2) show ?thesis by (intro np_reshape2_wrong_size) simp_all
  qed
  have figlen: "length (a_vals st) = nat (ntoa opts) * nat (nbins opts)"
    if "run opts ev = Inr fig" for fig
  proof -
    from that obtain st' where acc: "accumulate opts ev = Inr st'"
      and img: "phaseogram opts ev (a_vals st') = Inr (fig_image fig)"
      by (rule run_Inr_cases)
    from acc assms(3) have st': "st' = st" by simp
    from img obtain scaled b where
      sc: "apply_scale (scale opts) (a_vals st') = Inr scaled" and
      rs: "np_reshape2 scaled (ntoa opts) (nbins opts) = Inr b"
      by (rule phaseogram_Inr_cases)
    have "int (length scaled) = ntoa opts * nbins opts"
      using np_reshape2_rows [OF rs assms(1)] assms(2) by simp
    moreover have "length scaled = length (a_vals st)"
      using length_apply_scale [OF sc] by (simp add: st')
    moreover have "int (nat (ntoa opts) * nat (nbins opts)) = ntoa opts * nbins opts"
      using assms(1,2) by simp
    ultimately show ?thesis by linarith
  qed
  have nofig: "\<forall>fig. run opts ev \<noteq> Inr fig"
    if "\<exists>seg \<in> set segs. skip_segment opts seg"
    using short [OF that] figlen by fastforce
  have old: "length (a_vals st) = length ?kept * nat (nbins opts)
     \<and> (tmin opts = 0 \<or> tmin opts \<le> hdr_mjdstop ev \<longrightarrow>
           (\<forall>seg \<in> set segs. \<not> skip_segment opts seg))
     \<and> ((\<forall>seg \<in> set segs. \<not> skip_segment opts seg) \<longrightarrow>
           length (a_vals st) = nat (ntoa opts) * nat (nbins opts)
           \<and> (\<forall>scaled :: npfloat list. length scaled = length (a_vals st) \<longrightarrow>
                 (\<exists>b. np_reshape2 scaled (ntoa opts) (nbins opts) = Inr b
                      \<and> length b = nat (ntoa opts))))
     \<and> ((\<exists>seg \<in> set segs. skip_segment opts seg) \<longrightarrow>
           length (a_vals st) < nat (ntoa opts) * nat (nbins opts)
           \<and> (\<forall>scaled :: npfloat list. length scaled = length (a_vals st) \<longrightarrow>
                 np_reshape2 scaled (ntoa opts) (nbins opts) = Inl ValueError)
           \<and> (\<forall>fig. run opts ev \<noteq> Inr fig))
     \<and> (\<forall>fig. run opts ev = Inr fig \<longrightarrow>
           length (a_vals st) = nat (ntoa opts) * nat (nbins opts))"
    using len noskip full short bad nofig figlen by blast
  have first: "\<not> skip_segment opts (segs ! 0)"
    using assms(4,1) by (rule first_segment_kept)
  have later: "tmin opts \<noteq> 0 \<and> hdr_mjdstop ev < tmin opts \<longrightarrow>
           (\<forall>k. 1 \<le> k \<and> k < nat (ntoa opts) \<longrightarrow> skip_segment opts (segs ! k))"
    using later_segments_skipped [OF assms(4)] by blast
  have fires: "(\<exists>seg \<in> set segs. skip_segment opts seg) \<longleftrightarrow>
           tmin opts \<noteq> 0 \<and> hdr_mjdstop ev < tmin opts \<and> 2 \<le> ntoa opts"
  proof
    assume ex: "\<exists>seg \<in> set segs. skip_segment opts seg"
    then have t: "tmin opts \<noteq> 0 \<and> hdr_mjdstop ev < tmin opts"
      using noskip by fastforce
    have "2 \<le> ntoa opts"
    proof (rule ccontr)
      assume "\<not> 2 \<le> ntoa opts"
      with assms(1) have "nat (ntoa opts) = 1" by simp
      with nsegs have "length segs = 1" by simp
      then have "set segs = {segs ! 0}"
        by (cases segs) simp_all
      with ex first show False by simp
    qed
    with t show "tmin opts \<noteq> 0 \<and> hdr_mjdstop ev < tmin opts \<and> 2 \<le> ntoa opts" by simp
  next
    assume h: "tmin opts \<noteq> 0 \<and> hdr_mjdstop ev < tmin opts \<and> 2 \<le> ntoa opts"
    then have k: "1 < nat (ntoa opts)" by simp
    have "skip_segment opts (segs ! 1)"
      using later_segments_skipped [OF assms(4), of 1] h k by simp
    moreover have "segs ! 1 \<in> set segs" using k nsegs by (intro nth_mem) simp
    ultimately show "\<exists>seg \<in> set segs. skip_segment opts seg" by blast
  qed
  have comb: "A \<and> B \<and> C \<and> D \<and> E \<Longrightarrow> F \<Longrightarrow> G \<Longrightarrow> H
                \<Longrightarrow> A \<and> B \<and> C \<and> D \<and> E \<and> F \<and> G \<and> H" for A B C D E F G H :: bool
    by blast
  show ?thesis
    by (rule comb [OF old fires first later])
qed

theorem skipped_segments_break_reshape_witness:
  "length (a_vals \<lparr>profile = [0, 0], fullprof = [0, 0], err = [0, 0], a_vals = [0, 0]\<rparr>) < 2 * 2
   \<and> np_reshape2 [Finite 0, Finite 0] (ntoa (ex_opts\<lparr>tmin := 20\<rparr>)) (nbins (ex_opts\<lparr>tmin := 20\<rparr>))
       = Inl ValueError
   \<and> \<not> (\<exists>fig. run (ex_opts\<lparr>tmin := 20\<rparr>) ex_file = Inr fig)"
proof -
  let ?o = "ex_opts\<lparr>tmin := 20\<rparr>"
  let ?st = "\<lparr>profile = [0, 0], fullprof = [0, 0], err = [0, 0], a_vals = [0, 0]\<rparr> :: accum"
  have a1: "1 \<le> ntoa ?o" and a2: "1 \<le> nbins ?o" by (simp_all add: ex_defs)
  have a3: "accumulate ?o ex_file = Inr ?st" by (simp add: eval_defs ex_defs numeral_2_eq_2)
  have a4: "segments (mjdstart ?o ex_file) (hdr_mjdstop ex_file) (ntoa ?o) = Inr [(20, 15), (15, 10)]"
    by (simp add: eval_defs ex_defs)
  note th = skipped_segments_break_reshape [OF a1 a2 a3 a4]
  have sk: "\<exists>seg \<in> set [(20, 15), (15, 10)]. skip_segment ?o seg"
    by (simp add: skip_segment_def ex_defs)
  from th sk have short: "length (a_vals ?st) < nat (ntoa ?o) * nat (nbins ?o)"
    and bad: "\<forall>scaled :: npfloat list. length scaled = length (a_vals ?st) \<longrightarrow>
                 np_reshape2 scaled (ntoa ?o) (nbins ?o) = Inl ValueError"
    and nofig: "\<forall>fig. run ?o ex_file \<noteq> Inr fig"
    by blast+
  have b: "np_reshape2 [Finite 0, Finite 0] (ntoa ?o) (nbins ?o) = Inl ValueError"
    using bad [rule_format, of "[Finite 0, Finite 0]"] by simp
  show ?thesis using short b nofig by (simp add: ex_defs)
qed

subsection \<open>The scale changes the image only\<close>

lemma process_segment_scale:
  "process_segment (opts\<lparr>scale := s\<rparr>) mjds phases wts seg st
     = process_segment opts mjds phases wts seg st"
  by (simp add: process_segment_def Let_def cong: sum.case_cong option.case_cong)

lemma seg_loop_scale:
  "seg_loop (opts\<lparr>scale := s\<rparr>) mjds phases wts segs st
     = seg_loop opts mjds phases wts segs st"
proof (induction segs arbitrary: st)
  case Nil
  show ?case by simp
next
  case (Cons seg segs)
  show ?case
    by (simp add: skip_segment_def process_segment_scale Cons.IH cong: sum.case_cong)
qed

lemma mjdstart_scale: "mjdstart (opts\<lparr>scale := s\<rparr>) ev = mjdstart opts ev"
  by (simp add: mjdstart_def)

lemma folded_profile_Inr:
  "folded_profile opts st = Inr pan \<Longrightarrow>
   fullprof st \<noteq> [] \<and> py pan = fullprof st @ fullprof st
   \<and> step_y pan = fullprof st @ fullprof st @ [fullprof st ! 0]
   \<and> pe pan = (case weights opts of
                  Some col \<Rightarrow> map np_sqrt (err st @ err st)
                | None \<Rightarrow> map np_sqrt (fullprof st @ fullprof st))"
  by (auto simp: folded_profile_def Let_def split: if_splits)

lemma accumulate_scale: "accumulate (opts\<lparr>scale := s\<rparr>) ev = accumulate opts ev"
proof -
  have m: "filtered_mjds (opts\<lparr>scale := s\<rparr>) ev = filtered_mjds opts ev"
    by (simp add: filtered_mjds_def)
  have p: "filtered_phases (opts\<lparr>scale := s\<rparr>) ev = filtered_phases opts ev"
    by (simp add: filtered_phases_def)
  have w: "weight_column (opts\<lparr>scale := s\<rparr>) ev = weight_column opts ev"
    by (simp add: weight_column_def)
  show ?thesis
    by (simp add: accumulate_def seg_loop_scale mjdstart_scale m p w cong: sum.case_cong)
qed

lemma folded_profile_scale: "folded_profile (opts\<lparr>scale := s\<rparr>) st = folded_profile opts st"
  by (simp add: folded_profile_def Let_def cong: if_cong)

lemma np_reshape2_same_length:
  assumes "np_reshape2 xs n m = Inr b" and "length ys = length xs"
  shows "\<exists>b'. np_reshape2 ys n m = Inr b'"
  using assms by (auto simp: np_reshape2_def Let_def split: if_splits)

lemma phaseogram_valid_scale:
  assumes "phaseogram (opts\<lparr>scale := s1\<rparr>) ev avals = Inr img1"
    and "s2 = ''linear'' \<or> s2 = ''log'' \<or> s2 = ''sqrt'' \<or> s2 = ''squared''"
  shows "\<exists>img2. phaseogram (opts\<lparr>scale := s2\<rparr>) ev avals = Inr img2
           \<and> extent img2 = extent img1 \<and> aspect img2 = aspect img1"
proof -
  from assms(1) obtain scaled b where
    sc: "apply_scale (scale (opts\<lparr>scale := s1\<rparr>)) avals = Inr scaled" and
    rs: "np_reshape2 scaled (ntoa (opts\<lparr>scale := s1\<rparr>)) (nbins (opts\<lparr>scale := s1\<rparr>)) = Inr b" and
    nz: "hdr_mjdstop ev - mjdstart (opts\<lparr>scale := s1\<rparr>) ev \<noteq> 0" and
    i1: "img1 = \<lparr>c_matrix = np_hstack2 b b,
                extent = (0, 2.0, mjdstart (opts\<lparr>scale := s1\<rparr>) ev, hdr_mjdstop ev),
                aspect = 2.0 / (hdr_mjdstop ev - mjdstart (opts\<lparr>scale := s1\<rparr>) ev)\<rparr>"
    by (rule phaseogram_Inr_cases)
  from assms(2) obtain scaled2 where
    sc2: "apply_scale s2 avals = Inr scaled2" and l2: "length scaled2 = length avals"
    using apply_scale_valid [of s2 avals] by blast
  have "length scaled2 = length scaled"
    using l2 length_apply_scale [OF sc] by simp
  with rs obtain b2 where rs2: "np_reshape2 scaled2 (ntoa opts) (nbins opts) = Inr b2"
    using np_reshape2_same_length [of scaled "ntoa opts" "nbins opts" b scaled2] by auto
  show ?thesis
    using sc2 rs2 nz by (simp add: phaseogram_def i1 mjdstart_scale)
qed

text \<open>
  C10. The scale is read by the transform of the flat array \<open>a\<close> only. The accumulation
  (\<open>fullprof\<close>, \<open>err\<close>) and the folded profile panel do not depend on it: for any two of
  the four scales, if the run with one returns a figure, the run with the other returns
  a figure with the same panel, and that panel is computed from the untransformed
  \<open>fullprof\<close> and \<open>err\<close> of the accumulation, its values being \<open>fullprof\<close> twice.
\<close>

theorem scale_leaves_panel_unchanged:
  assumes "s1 = ''linear'' \<or> s1 = ''log'' \<or> s1 = ''sqrt'' \<or> s1 = ''squared''"
    and "s2 = ''linear'' \<or> s2 = ''log'' \<or> s2 = ''sqrt'' \<or> s2 = ''squared''"
    and "run (opts\<lparr>scale := s1\<rparr>) ev = Inr fig1"
  shows "accumulate (opts\<lparr>scale := s1\<rparr>) ev = accumulate (opts\<lparr>scale := s2\<rparr>) ev
     \<and> (\<exists>st. accumulate opts ev = Inr st
           \<and> folded_profile opts st = Inr (fig_panel fig1)
           \<and> py (fig_panel fig1) = fullprof st @ fullprof st
           \<and> step_y (fig_panel fig1) = fullprof st @ fullprof st @ [fullprof st ! 0])
     \<and> (\<exists>fig2. run (opts\<lparr>scale := s2\<rparr>) ev = Inr fig2
           \<and> fig_panel fig2 = fig_panel fig1
           \<and> extent (fig_image fig2) = extent (fig_image fig1))"
proof -
  from assms(3) obtain st where
    acc: "accumulate (opts\<lparr>scale := s1\<rparr>) ev = Inr st" and
    img: "phaseogram (opts\<lparr>scale := s1\<rparr>) ev (a_vals st) = Inr (fig_image fig1)" and
    pan: "folded_profile (opts\<lparr>scale := s1\<rparr>) st = Inr (fig_panel fig1)"
    by (rule run_Inr_cases)
  have acc0: "accumulate opts ev = Inr st" using acc by (simp add: accumulate_scale)
  have pan0: "folded_profile opts st = Inr (fig_panel fig1)"
    using pan by (simp add: folded_profile_scale)
  have vals: "py (fig_panel fig1) = fullprof st @ fullprof st
              \<and> step_y (fig_panel fig1) = fullprof st @ fullprof st @ [fullprof st ! 0]"
    using folded_profile_Inr [OF pan0] by simp
  from phaseogram_valid_scale [OF img assms(2)] obtain img2 where
    img2: "phaseogram (opts\<lparr>scale := s2\<rparr>) ev (a_vals st) = Inr img2" and
    ext: "extent img2 = extent (fig_image fig1)"
    by blast
  have "run (opts\<lparr>scale := s2\<rparr>) ev = Inr \<lparr>fig_image = img2, fig_panel = fig_panel fig1\<rparr>"
    using acc0 img2 pan0 by (simp add: run_def accumulate_scale folded_profile_scale)
  then have "\<exists>fig2. run (opts\<lparr>scale := s2\<rparr>) ev = Inr fig2
           \<and> fig_panel fig2 = fig_panel fig1
           \<and> extent (fig_image fig2) = extent (fig_image fig1)"
    using ext by simp
  moreover have "accumulate (opts\<lparr>scale := s1\<rparr>) ev = accumulate (opts\<lparr>scale := s2\<rparr>) ev"
    by (simp add: accumulate_scale)
  ultimately show ?thesis using acc0 pan0 vals by blast
qed

theorem scale_leaves_panel_unchanged_witness:
  "\<exists>fig1 fig2. run (ex_opts\<lparr>scale := ''linear''\<rparr>) ex_file = Inr fig1
      \<and> run (ex_opts\<lparr>scale := ''squared''\<rparr>) ex_file = Inr fig2
      \<and> fig_panel fig2 = fig_panel fig1
      \<and> py (fig_panel fig1) = [1, 1, 1, 1]
      \<and> accumulate (ex_opts\<lparr>scale := ''linear''\<rparr>) ex_file
          = accumulate (ex_opts\<lparr>scale := ''squared''\<rparr>) ex_file"
proof -
  obtain fig1 where r1: "run (ex_opts\<lparr>scale := ''linear''\<rparr>) ex_file = Inr fig1"
    by (simp add: eval_defs ex_defs)
  have v1: "''linear'' = ''linear'' \<or> ''linear'' = ''log'' \<or> ''linear'' = ''sqrt''
              \<or> ''linear'' = ''squared''" by simp
  have v2: "''squared'' = ''linear'' \<or> ''squared'' = ''log'' \<or> ''squared'' = ''sqrt''
              \<or> ''squared'' = ''squared''" by simp
  note th = scale_leaves_panel_unchanged [OF v1 v2 r1]
  from th obtain fig2 where r2: "run (ex_opts\<lparr>scale := ''squared''\<rparr>) ex_file = Inr fig2"
    and p: "fig_panel fig2 = fig_panel fig1" by blast
  have a: "accumulate (ex_opts\<lparr>scale := ''linear''\<rparr>) ex_file
          = accumulate (ex_opts\<lparr>scale := ''squared''\<rparr>) ex_file"
    using th by blast
  have y: "py (fig_panel fig1) = [1, 1, 1, 1]"
    using r1 by (auto simp: eval_defs ex_defs numeral_2_eq_2)
  show ?thesis using r1 r2 p y a by blast
qed

subsection \<open>Unweighted accumulation\<close>

lemma phase_bin_range:
  assumes "0 \<le> ph" and "ph < 1" and "1 \<le> nb"
  shows "0 \<le> phase_bin nb ph \<and> phase_bin nb ph < nb"
proof -
  have nn: "0 \<le> ph * real_of_int nb" using assms(1,3) by simp
  have "ph * real_of_int nb < 1 * real_of_int nb"
    using assms(2,3) by (intro mult_strict_right_mono) simp_all
  then have lt: "ph * real_of_int nb < real_of_int nb" by simp
  have "phase_bin nb ph = \<lfloor>ph * real_of_int nb\<rfloor>"
    using nn by (simp add: phase_bin_def py_int_def)
  then show ?thesis using nn lt by (simp add: floor_less_iff)
qed

lemma np_add_at_ok:
  "0 \<le> i \<Longrightarrow> i < int (length xs) \<Longrightarrow>
   np_add_at xs i v = Inr (xs[nat i := xs ! nat i + v])"
  by (simp add: np_add_at_def Let_def)

lemma count_in_bin_Nil: "count_in_bin nb [] b = 0"
  by (simp add: count_in_bin_def)

lemma count_in_bin_Cons:
  "count_in_bin nb (ph # phs) b
     = (if phase_bin nb ph = int b then 1 else 0) + count_in_bin nb phs b"
  by (simp add: count_in_bin_def)

lemma count_in_bin_append:
  "count_in_bin nb (xs @ ys) b = count_in_bin nb xs b + count_in_bin nb ys b"
  by (simp add: count_in_bin_def)

lemma length_add_hist: "length (add_hist nb xs phs) = nat nb"
  by (simp add: add_hist_def)

lemma length_histogram: "length (histogram nb phs) = nat nb"
  by (simp add: histogram_def)

lemma add_hist_Nil: "length xs = nat nb \<Longrightarrow> add_hist nb xs [] = xs"
  using map_nth [of xs] by (simp add: add_hist_def count_in_bin_Nil)

lemma add_hist_zeros: "add_hist nb (replicate (nat nb) 0) phs = histogram nb phs"
  by (simp add: add_hist_def histogram_def)

lemma add_hist_add_hist:
  "add_hist nb (add_hist nb xs p1) p2 = add_hist nb xs (p1 @ p2)"
  by (simp add: add_hist_def count_in_bin_append)

lemma add_hist_Cons:
  assumes "0 \<le> phase_bin nb ph" and "phase_bin nb ph < nb" and "length xs = nat nb"
  shows "add_hist nb (xs[nat (phase_bin nb ph) := xs ! nat (phase_bin nb ph) + 1]) phs
           = add_hist nb xs (ph # phs)"
proof -
  let ?k = "nat (phase_bin nb ph)"
  have "xs[?k := xs ! ?k + 1] ! b + real (count_in_bin nb phs b)
          = xs ! b + real (count_in_bin nb (ph # phs) b)" if "b < nat nb" for b
  proof (cases "b = ?k")
    case True
    then have "phase_bin nb ph = int b" using assms(1) by simp
    then show ?thesis using that assms(3) True by (simp add: count_in_bin_Cons)
  next
    case False
    then have "phase_bin nb ph \<noteq> int b" by auto
    then show ?thesis using that assms(3) False by (simp add: count_in_bin_Cons)
  qed
  then show ?thesis by (simp add: add_hist_def)
qed

lemma add_counts_hist:
  "length (profile st) = nat nb \<Longrightarrow> length (fullprof st) = nat nb \<Longrightarrow> 1 \<le> nb \<Longrightarrow>
   \<forall>ph \<in> set phs. 0 \<le> ph \<and> ph < 1 \<Longrightarrow>
   add_counts nb st phs
     = Inr (st\<lparr>profile := add_hist nb (profile st) phs,
               fullprof := add_hist nb (fullprof st) phs\<rparr>)"
proof (induction phs arbitrary: st)
  case Nil
  then show ?case by (simp add: add_hist_Nil)
next
  case (Cons ph phs)
  let ?bin = "phase_bin nb ph"
  have rng: "0 \<le> ?bin \<and> ?bin < nb"
    using Cons.prems(3,4) by (intro phase_bin_range) simp_all
  let ?p = "(profile st)[nat ?bin := profile st ! nat ?bin + 1]"
  let ?f = "(fullprof st)[nat ?bin := fullprof st ! nat ?bin + 1]"
  have p: "np_add_at (profile st) ?bin 1 = Inr ?p"
    using rng Cons.prems(1) by (intro np_add_at_ok) simp_all
  have f: "np_add_at (fullprof st) ?bin 1 = Inr ?f"
    using rng Cons.prems(2) by (intro np_add_at_ok) simp_all
  let ?st1 = "st\<lparr>profile := ?p, fullprof := ?f\<rparr>"
  have ih: "add_counts nb ?st1 phs
              = Inr (?st1\<lparr>profile := add_hist nb (profile ?st1) phs,
                          fullprof := add_hist nb (fullprof ?st1) phs\<rparr>)"
    using Cons.prems by (intro Cons.IH) simp_all
  have hp: "add_hist nb ?p phs = add_hist nb (profile st) (ph # phs)"
    using rng Cons.prems(1) by (intro add_hist_Cons) simp_all
  have hf: "add_hist nb ?f phs = add_hist nb (fullprof st) (ph # phs)"
    using rng Cons.prems(2) by (intro add_hist_Cons) simp_all
  show ?case
    using ih by (simp add: p f hp hf Let_def)
qed

lemma sum_list_indicator:
  "sum_list (map (\<lambda>b. if j = b then 1 else 0 :: real) [0..<n]) = (if j < n then 1 else 0)"
  by (induction n) auto

lemma sum_list_histogram:
  assumes "\<forall>ph \<in> set phs. 0 \<le> phase_bin nb ph \<and> phase_bin nb ph < nb"
  shows "sum_list (histogram nb phs) = real (length phs)"
  using assms
proof (induction phs)
  case Nil
  show ?case by (simp add: histogram_def count_in_bin_Nil)
next
  case (Cons ph phs)
  let ?k = "nat (phase_bin nb ph)"
  have rng: "0 \<le> phase_bin nb ph" "phase_bin nb ph < nb" using Cons.prems by simp_all
  have ind: "real (if phase_bin nb ph = int b then 1 else 0) = (if ?k = b then 1 else 0)" for b
    using rng(1) by auto
  have "sum_list (histogram nb (ph # phs))
          = sum_list (map (\<lambda>b. (if ?k = b then 1 else 0) + real (count_in_bin nb phs b))
              [0..<nat nb])"
    by (simp add: histogram_def count_in_bin_Cons ind)
  also have "\<dots> = sum_list (map (\<lambda>b. if ?k = b then 1 else 0 :: real) [0..<nat nb])
                   + sum_list (histogram nb phs)"
    by (simp add: histogram_def sum_list_addf)
  also have "\<dots> = 1 + real (length phs)"
    using rng Cons.IH Cons.prems by (simp add: sum_list_indicator)
  finally show ?case by simp
qed

lemma selected_subset: "set (selected mjds phases seg) \<subseteq> set phases"
proof
  fix ph assume "ph \<in> set (selected mjds phases seg)"
  then obtain t where "(ph, t) \<in> set (zip phases mjds)"
    by (auto simp: selected_def)
  then show "ph \<in> set phases" by (rule set_zip_leftD)
qed

lemma process_segment_counts:
  assumes "length (profile st) = nat (nbins opts)" and "length (fullprof st) = nat (nbins opts)"
    and "1 \<le> nbins opts" and "length phases = length mjds"
    and "\<forall>ph \<in> set phases. 0 \<le> ph \<and> ph < 1"
  shows "process_segment opts mjds phases None seg st
     = Inr (st\<lparr>profile := histogram (nbins opts) (selected mjds phases seg),
               fullprof := add_hist (nbins opts) (fullprof st) (selected mjds phases seg),
               a_vals := a_vals st @ histogram (nbins opts) (selected mjds phases seg)\<rparr>)"
proof -
  let ?nb = "nbins opts"
  let ?sel = "selected mjds phases seg"
  let ?st0 = "st\<lparr>profile := map (\<lambda>x. x * 0.0) (profile st)\<rparr>"
  have z: "map (\<lambda>x. x * 0.0) (profile st) = replicate (nat ?nb) 0"
    using assms(1) by (simp add: map_replicate_const)
  have bi: "bool_index phases (seg_mask mjds (fst seg) (snd seg)) = Inr ?sel"
    using assms(4) by (simp add: bool_index_seg_mask selected_def)
  have ok: "\<forall>ph \<in> set ?sel. 0 \<le> ph \<and> ph < 1"
    using assms(5) selected_subset [of mjds phases seg] by blast
  have ac: "add_counts ?nb ?st0 ?sel
              = Inr (?st0\<lparr>profile := add_hist ?nb (profile ?st0) ?sel,
                          fullprof := add_hist ?nb (fullprof ?st0) ?sel\<rparr>)"
    using assms(1,2,3) ok by (intro add_counts_hist) simp_all
  have h: "add_hist ?nb (profile ?st0) ?sel = histogram ?nb ?sel"
  proof -
    have "profile ?st0 = replicate (nat ?nb) 0" using z by simp
    then show ?thesis by (simp only: add_hist_zeros)
  qed
  have m: "map (\<lambda>i. histogram ?nb ?sel ! i) [0..<nat ?nb] = histogram ?nb ?sel"
    using map_nth [of "histogram ?nb ?sel"] by (simp add: length_histogram)
  have ps: "process_segment opts mjds phases None seg st
              = (case add_counts ?nb ?st0 ?sel of
                   Inl e \<Rightarrow> Inl e
                 | Inr st1 \<Rightarrow>
                     Inr (st1\<lparr>a_vals :=
                       a_vals st1 @ map (\<lambda>i. profile st1 ! i) [0..<nat ?nb]\<rparr>))"
    by (simp add: process_segment_def Let_def bi)
  show ?thesis
    unfolding ps ac h by (simp add: m)
qed

lemma seg_loop_counts:
  "length (profile st) = nat (nbins opts) \<Longrightarrow> length (fullprof st) = nat (nbins opts) \<Longrightarrow>
   1 \<le> nbins opts \<Longrightarrow> length phases = length mjds \<Longrightarrow>
   \<forall>ph \<in> set phases. 0 \<le> ph \<and> ph < 1 \<Longrightarrow>
   \<exists>st'. seg_loop opts mjds phases None segs st = Inr st'
     \<and> a_vals st' = a_vals st @ concat (map (\<lambda>seg. histogram (nbins opts) (selected mjds phases seg))
                         (filter (\<lambda>seg. \<not> skip_segment opts seg) segs))
     \<and> fullprof st' = add_hist (nbins opts) (fullprof st)
                         (concat (map (selected mjds phases)
                            (filter (\<lambda>seg. \<not> skip_segment opts seg) segs)))
     \<and> err st' = err st"
proof (induction segs arbitrary: st)
  case Nil
  then show ?case by (simp add: add_hist_Nil)
next
  case (Cons seg segs)
  show ?case
  proof (cases "skip_segment opts seg")
    case True
    then show ?thesis using Cons.IH [OF Cons.prems] by simp
  next
    case False
    let ?nb = "nbins opts"
    let ?sel = "selected mjds phases seg"
    let ?st1 = "st\<lparr>profile := histogram ?nb ?sel,
                   fullprof := add_hist ?nb (fullprof st) ?sel,
                   a_vals := a_vals st @ histogram ?nb ?sel\<rparr>"
    have ps: "process_segment opts mjds phases None seg st = Inr ?st1"
      using Cons.prems by (rule process_segment_counts)
    have l1: "length (profile ?st1) = nat ?nb" by (simp add: length_histogram)
    have l2: "length (fullprof ?st1) = nat ?nb" by (simp add: length_add_hist)
    from Cons.IH [OF l1 l2 Cons.prems(3,4,5)] obtain st' where
      loop: "seg_loop opts mjds phases None segs ?st1 = Inr st'" and
      av: "a_vals st' = a_vals ?st1 @ concat (map (\<lambda>seg. histogram ?nb (selected mjds phases seg))
                         (filter (\<lambda>seg. \<not> skip_segment opts seg) segs))" and
      fp: "fullprof st' = add_hist ?nb (fullprof ?st1)
                         (concat (map (selected mjds phases)
                            (filter (\<lambda>seg. \<not> skip_segment opts seg) segs)))" and
      er: "err st' = err ?st1"
      by blast
    have "seg_loop opts mjds phases None (seg # segs) st = Inr st'"
      using False ps loop by simp
    moreover have "a_vals st' = a_vals st @ concat (map (\<lambda>seg. histogram ?nb (selected mjds phases seg))
                         (filter (\<lambda>seg. \<not> skip_segment opts seg) (seg # segs)))"
      using False av by simp
    moreover have "fullprof st' = add_hist ?nb (fullprof st)
                         (concat (map (selected mjds phases)
                            (filter (\<lambda>seg. \<not> skip_segment opts seg) (seg # segs))))"
      using False fp by (simp add: add_hist_add_hist)
    moreover have "err st' = err st" using er by simp
    ultimately show ?thesis by blast
  qed
qed

lemma sum_list_histogram_concat:
  assumes "\<forall>ph \<in> set phases. 0 \<le> phase_bin nb ph \<and> phase_bin nb ph < nb"
  shows "sum_list (histogram nb (concat (map (selected mjds phases) ks)))
           = (\<Sum>seg\<leftarrow>ks. sum_list (histogram nb (selected mjds phases seg)))"
proof -
  have one: "sum_list (histogram nb (selected mjds phases seg))
               = real (length (selected mjds phases seg))" for seg
    using assms selected_subset [of mjds phases seg] by (intro sum_list_histogram) blast
  have "\<forall>ph \<in> set (concat (map (selected mjds phases) ks)).
          0 \<le> phase_bin nb ph \<and> phase_bin nb ph < nb"
    using assms selected_subset [of mjds phases] by auto
  then have "sum_list (histogram nb (concat (map (selected mjds phases) ks)))
               = real (length (concat (map (selected mjds phases) ks)))"
    by (rule sum_list_histogram)
  also have "\<dots> = (\<Sum>seg\<leftarrow>ks. real (length (selected mjds phases seg)))"
    by (induction ks) simp_all
  finally show ?thesis by (simp add: one)
qed

lemma set_take_idx:
  "\<forall>i \<in> set idx. i < length xs \<Longrightarrow> set (take_idx xs idx) \<subseteq> set xs"
  by (auto simp: take_idx_def)

lemma filtered_phases_subset:
  "set (filtered_phases opts ev) \<subseteq> ev_phase ` set (events ev)"
proof -
  have "\<forall>i \<in> set (energy_idx (emin opts) (emax opts) (map ev_en (events ev))).
          i < length (map ev_phase (events ev))"
    by (simp add: energy_idx_def)
  then have "set (filtered_phases opts ev) \<subseteq> set (map ev_phase (events ev))"
    unfolding filtered_phases_def by (rule set_take_idx)
  then show ?thesis by simp
qed

text \<open>
  C7. Without weights, with \<open>nbins \<ge> 1\<close> and every phase in \<open>[0, 1)\<close>: the bin index of
  every event lies in \<open>[0, nbins)\<close>, and the accumulation succeeds. The values appended
  for a processed segment are the histogram of the phases that segment selects (entry
  \<open>b\<close> counts the selected events whose bin is \<open>b\<close>), the sum of a segment's bins is the
  number of events selected for it, \<open>fullprof\<close> is the histogram of all events selected
  by the processed segments, and its total is the sum of the per-segment totals.
\<close>

theorem unweighted_accumulation_counts:
  assumes "weights opts = None" and "1 \<le> nbins opts"
    and "\<forall>e \<in> set (events ev). 0 \<le> ev_phase e \<and> ev_phase e < 1"
    and "segments (mjdstart opts ev) (hdr_mjdstop ev) (ntoa opts) = Inr segs"
    and "kept = filter (\<lambda>seg. \<not> skip_segment opts seg) segs"
    and "mjds = filtered_mjds opts ev" and "phases = filtered_phases opts ev"
  shows "(\<forall>ph \<in> set phases. 0 \<le> phase_bin (nbins opts) ph \<and> phase_bin (nbins opts) ph < nbins opts)
     \<and> (\<exists>st. accumulate opts ev = Inr st
          \<and> a_vals st = concat (map (\<lambda>seg. histogram (nbins opts) (selected mjds phases seg)) kept)
          \<and> fullprof st = histogram (nbins opts) (concat (map (selected mjds phases) kept))
          \<and> sum_list (fullprof st)
              = (\<Sum>seg\<leftarrow>kept. sum_list (histogram (nbins opts) (selected mjds phases seg))))
     \<and> (\<forall>seg. sum_list (histogram (nbins opts) (selected mjds phases seg))
                = real (length (selected mjds phases seg)))
     \<and> (\<forall>seg. \<forall>b < nat (nbins opts). histogram (nbins opts) (selected mjds phases seg) ! b
                = real (length (filter (\<lambda>ph. phase_bin (nbins opts) ph = int b)
                                  (selected mjds phases seg))))"
proof -
  let ?nb = "nbins opts"
  let ?z = "\<lparr>profile = replicate (nat ?nb) 0, fullprof = replicate (nat ?nb) 0,
             err = replicate (nat ?nb) 0, a_vals = []\<rparr>"
  have ph: "\<forall>ph \<in> set phases. 0 \<le> ph \<and> ph < 1"
    using assms(3) filtered_phases_subset [of opts ev] unfolding assms(7) by auto
  have bins: "\<forall>ph \<in> set phases. 0 \<le> phase_bin ?nb ph \<and> phase_bin ?nb ph < ?nb"
    using ph assms(2) by (simp add: phase_bin_range)
  have len: "length phases = length mjds"
    unfolding assms(6,7) by (rule length_filtered_phases)
  have "\<exists>st'. seg_loop opts mjds phases None segs ?z = Inr st'
     \<and> a_vals st' = a_vals ?z @ concat (map (\<lambda>seg. histogram ?nb (selected mjds phases seg))
                         (filter (\<lambda>seg. \<not> skip_segment opts seg) segs))
     \<and> fullprof st' = add_hist ?nb (fullprof ?z)
                         (concat (map (selected mjds phases)
                            (filter (\<lambda>seg. \<not> skip_segment opts seg) segs)))
     \<and> err st' = err ?z"
    using assms(2) len ph by (intro seg_loop_counts) simp_all
  then obtain st where
    loop: "seg_loop opts mjds phases None segs ?z = Inr st" and
    av: "a_vals st = concat (map (\<lambda>seg. histogram ?nb (selected mjds phases seg)) kept)" and
    fp: "fullprof st = histogram ?nb (concat (map (selected mjds phases) kept))"
    unfolding assms(5) by (auto simp: add_hist_zeros)
  have acc: "accumulate opts ev = Inr st"
    using loop assms(1,2) unfolding assms(6,7)
    by (simp add: accumulate_def assms(4) np_zeros_def weight_column_def)
  have tot: "sum_list (fullprof st)
              = (\<Sum>seg\<leftarrow>kept. sum_list (histogram ?nb (selected mjds phases seg)))"
    unfolding fp using bins by (rule sum_list_histogram_concat)
  have seg_tot: "sum_list (histogram ?nb (selected mjds phases seg))
                   = real (length (selected mjds phases seg))" for seg
    using bins selected_subset [of mjds phases seg] by (intro sum_list_histogram) blast
  have entry: "histogram ?nb (selected mjds phases seg) ! b
                = real (length (filter (\<lambda>ph. phase_bin ?nb ph = int b)
                                  (selected mjds phases seg)))" if "b < nat ?nb" for seg b
    using that by (simp add: histogram_def count_in_bin_def)
  show ?thesis
    using bins acc av fp tot seg_tot entry by blast
qed

theorem unweighted_accumulation_counts_witness:
  "\<exists>st. accumulate ex_opts ex_file = Inr st
      \<and> a_vals st = [1, 0, 0, 1] \<and> fullprof st = [1, 1] \<and> sum_list (fullprof st) = 2
      \<and> sum_list (histogram 2 (selected [1, 7] [0.25, 0.5] (0, 5))) = 1
      \<and> phase_bin 2 0.5 = 1"
proof -
  have a1: "weights ex_opts = None" and a2: "1 \<le> nbins ex_opts" by (simp_all add: ex_defs)
  have a3: "\<forall>e \<in> set (events ex_file). 0 \<le> ev_phase e \<and> ev_phase e < 1"
    by (simp add: ex_defs)
  have a4: "segments (mjdstart ex_opts ex_file) (hdr_mjdstop ex_file) (ntoa ex_opts)
              = Inr [(0, 5), (5, 10)]"
    by (simp add: eval_defs ex_defs)
  have a5: "[(0, 5), (5, 10)] = filter (\<lambda>seg. \<not> skip_segment ex_opts seg) [(0, 5), (5, 10)]"
    by (simp add: skip_segment_def ex_defs)
  have a6: "[1, 7] = filtered_mjds ex_opts ex_file" by (simp add: eval_defs ex_defs)
  have a7: "[0.25, 0.5] = filtered_phases ex_opts ex_file" by (simp add: eval_defs ex_defs)
  note th = unweighted_accumulation_counts [OF a1 a2 a3 a4 a5 a6 a7]
  have s1: "selected [1, 7] [1 / 4, 1 / 2] (0, 5) = [1 / 4]"
    and s2: "selected [1, 7] [1 / 4, 1 / 2] (5, 10) = [1 / 2]"
    by (simp_all add: selected_def)
  have b1: "phase_bin 2 (1 / 4) = 0" and b2: "phase_bin 2 (1 / 2) = 1"
    by (simp_all add: phase_bin_def py_int_def)
  have h1: "histogram 2 [1 / 4] = [1, 0]" and h2: "histogram 2 [1 / 2] = [0, 1]"
    and h3: "histogram 2 [1 / 4, 1 / 2] = [1, 1]"
    by (simp_all add: histogram_def count_in_bin_def b1 b2 upt_conv_Cons)
  from th obtain st where acc: "accumulate ex_opts ex_file = Inr st"
    and av: "a_vals st = concat (map (\<lambda>seg. histogram (nbins ex_opts)
                (selected [1, 7] [0.25, 0.5] seg)) [(0, 5), (5, 10)])"
    and fp: "fullprof st = histogram (nbins ex_opts)
                (concat (map (selected [1, 7] [0.25, 0.5]) [(0, 5), (5, 10)]))"
    by blast
  have nb: "nbins ex_opts = 2" by (simp add: ex_defs)
  have av': "a_vals st = [1, 0, 0, 1]" using av by (simp add: nb s1 s2 h1 h2)
  have fp': "fullprof st = [1, 1]" using fp by (simp add: nb s1 s2 h3)
  from th have "\<forall>seg. sum_list (histogram (nbins ex_opts) (selected [1, 7] [0.25, 0.5] seg))
                 = real (length (selected [1, 7] [0.25, 0.5] seg))"
    by blast
  then have "sum_list (histogram (nbins ex_opts) (selected [1, 7] [0.25, 0.5] (0, 5)))
                 = real (length (selected [1, 7] [0.25, 0.5] (0, 5)))"
    by blast
  then have t: "sum_list (histogram 2 (selected [1, 7] [0.25, 0.5] (0, 5))) = 1"
    by (simp add: nb s1)
  show ?thesis using acc av' fp' t b2 by simp
qed

subsection \<open>The folded profile panel\<close>






end
